theory Spec2Isabelle
  imports Main "HOL-Library.Word" "HOL-Library.AList"
begin

unbundle bit_operations_syntax

section \<open>Bytes, hexadecimal text and Python errors\<close>

text \<open>
  A Python \<^verbatim>\<open>bytes\<close> value is a list of 8-bit words. A Python \<^verbatim>\<open>str\<close> is a \<open>string\<close>;
  a \<open>char\<close> stands for the code point of the same number (the model covers the code
  points below 256). Exceptions are values of \<open>pyerr\<close>; a function that can raise
  returns \<open>pyerr + 'a\<close>, with \<open>Inl\<close> for the exception.
\<close>

type_synonym u8 = "8 word"

datatype pyerr = ValueError | IndexError | KeyError | TypeError

definition bindE :: "pyerr + 'a \<Rightarrow> ('a \<Rightarrow> pyerr + 'b) \<Rightarrow> pyerr + 'b" where
  "bindE m f = (case m of Inl e \<Rightarrow> Inl e | Inr x \<Rightarrow> f x)"

text \<open>The format specification \<^verbatim>\<open>{b:02X}\<close>: two upper-case hexadecimal digits.\<close>

definition hexdigit :: "nat \<Rightarrow> char" where
  "hexdigit n = ''0123456789ABCDEF'' ! n"

definition hex2 :: "u8 \<Rightarrow> string" where
  "hex2 b = [hexdigit (unat b div 16), hexdigit (unat b mod 16)]"

text \<open>\<^verbatim>\<open>data.hex().upper()\<close>\<close>

definition hex_upper :: "u8 list \<Rightarrow> string" where
  "hex_upper bs = concat (map hex2 bs)"

text \<open>\<^verbatim>\<open>sep.join(xs)\<close>\<close>

fun join :: "string \<Rightarrow> string list \<Rightarrow> string" where
  "join sep [] = []"
| "join sep [x] = x"
| "join sep (x # y # ys) = x @ sep @ join sep (y # ys)"

text \<open>\<^verbatim>\<open>' '.join(f'{b:02X}' for b in bs)\<close>\<close>

definition hex_spaced :: "u8 list \<Rightarrow> string" where
  "hex_spaced bs = join '' '' (map hex2 bs)"

text \<open>
  \<^verbatim>\<open>bytes.fromhex\<close> (CPython 3.7 and later): ASCII whitespace is skipped before each
  pair of digits, never between the two digits of a pair; anything else that is not a
  hexadecimal digit, and a digit without a partner, raise \<^verbatim>\<open>ValueError\<close>.
\<close>

definition ascii_space :: "char \<Rightarrow> bool" where
  "ascii_space c = (of_char c \<in> {9, 10, 11, 12, 13, 32 :: nat})"

definition digit_value :: "char \<Rightarrow> nat option" where
  "digit_value c =
     (let n = (of_char c :: nat) in
      if 48 \<le> n \<and> n \<le> 57 then Some (n - 48)
      else if 65 \<le> n \<and> n \<le> 70 then Some (n - 55)
      else if 97 \<le> n \<and> n \<le> 102 then Some (n - 87)
      else None)"

fun fromhex :: "string \<Rightarrow> pyerr + u8 list" where
  "fromhex [] = Inr []"
| "fromhex [c] = (if ascii_space c then Inr [] else Inl ValueError)"
| "fromhex (c # d # ds) =
     (if ascii_space c then fromhex (d # ds)
      else case digit_value c of
        None \<Rightarrow> Inl ValueError
      | Some hi \<Rightarrow>
          (case digit_value d of
             None \<Rightarrow> Inl ValueError
           | Some lo \<Rightarrow>
               (case fromhex ds of
                  Inl e \<Rightarrow> Inl e
                | Inr bs \<Rightarrow> Inr (word_of_nat (16 * hi + lo) # bs))))"

section \<open>Field derivation\<close>

text \<open>\<^verbatim>\<open>calculate_password_from_uid\<close>: \<open>None\<close> is Python's \<^verbatim>\<open>None\<close>.\<close>

definition calculate_password_from_uid :: "u8 list \<Rightarrow> u8 list option" where
  "calculate_password_from_uid uid_bytes =
     (if length uid_bytes < 7 then None
      else
        let sn1 = uid_bytes ! 1; sn2 = uid_bytes ! 2; sn3 = uid_bytes ! 3;
            sn4 = uid_bytes ! 4; sn5 = uid_bytes ! 5; sn6 = uid_bytes ! 6
        in Some [sn1 XOR sn3 XOR 0xAA, sn2 XOR sn4 XOR 0x55,
                 sn3 XOR sn5 XOR 0xAA, sn4 XOR sn6 XOR 0x55])"

section \<open>Field validator\<close>

text \<open>
  The \<^verbatim>\<open>pages\<close> dictionary maps a page number to the page's hexadecimal text. It is
  an association list read with \<open>map_of\<close>. \<^verbatim>\<open>bytes.fromhex(pages[n])\<close> raises
  \<^verbatim>\<open>KeyError\<close> for a missing key before it can raise \<^verbatim>\<open>ValueError\<close>.
\<close>

type_synonym pages = "(nat \<times> string) list"

definition page_bytes :: "pages \<Rightarrow> nat \<Rightarrow> pyerr + u8 list" where
  "page_bytes pages n = (case map_of pages n of None \<Rightarrow> Inl KeyError | Some s \<Rightarrow> fromhex s)"

definition has_page :: "pages \<Rightarrow> nat \<Rightarrow> bool" where
  "has_page pages n = (map_of pages n \<noteq> None)"

text \<open>
  The dictionary \<^verbatim>\<open>problem_details\<close> (and \<^verbatim>\<open>issue_types\<close> of the repair functions):
  one boolean per tracked field.
\<close>

record problem_details =
  pd_uid_field :: bool
  pd_sn3 :: bool
  pd_bcc0 :: bool
  pd_bcc1 :: bool
  pd_password :: bool
  pd_pack :: bool
  pd_dlb :: bool
  pd_cfg0 :: bool
  pd_cfg1 :: bool

definition all_false :: problem_details where
  "all_false = \<lparr>pd_uid_field = False, pd_sn3 = False, pd_bcc0 = False, pd_bcc1 = False,
     pd_password = False, pd_pack = False, pd_dlb = False, pd_cfg0 = False, pd_cfg1 = False\<rparr>"

text \<open>
  The status text of the validator is for the report only. The model keeps which of
  the three kinds of text is returned, not the formatted field values.
\<close>

datatype status = Missing_required_pages | Invalid_UID_length | Field_report

text \<open>
  \<^verbatim>\<open>validate_dlb_and_cfg\<close> returns \<^verbatim>\<open>(all_valid, status, dlb_valid, cfg0_valid, cfg1_valid)\<close>;
  the model returns the four booleans. \<open>None\<close> for \<open>pages\<close> is Python's \<^verbatim>\<open>None\<close>.
\<close>

definition validate_dlb_and_cfg :: "pages option \<Rightarrow> pyerr + (bool \<times> bool \<times> bool \<times> bool)" where
  "validate_dlb_and_cfg pages_opt =
     (case pages_opt of
        None \<Rightarrow> Inr (False, False, False, False)
      | Some pages \<Rightarrow>
          if pages = [] \<or> \<not> has_page pages 130 \<or> \<not> has_page pages 131 \<or> \<not> has_page pages 132
          then Inr (False, False, False, False)
          else
            bindE (page_bytes pages 130) (\<lambda>page130.
            bindE (page_bytes pages 131) (\<lambda>page131.
            bindE (page_bytes pages 132) (\<lambda>page132.
              if length page130 < 4 \<or> length page131 < 4 \<or> length page132 < 4
              then Inr (False, False, False, False)
              else
                let dlb_valid = (take 4 page130 = [0x01, 0x00, 0x0F, 0xBF]);
                    cfg0_valid = (take 4 page131 = [0x00, 0x00, 0x00, 0x04]);
                    cfg1_valid = (take 4 page132 = [0x5F, 0x00, 0x00, 0x00])
                in Inr (dlb_valid \<and> cfg0_valid \<and> cfg1_valid, dlb_valid, cfg0_valid, cfg1_valid)))))"

text \<open>
  \<^verbatim>\<open>check_uid_comprehensive(pages, filepath, uid_field)\<close> returns
  \<^verbatim>\<open>(all_valid, status, uid_hex, problem_details)\<close>. The parameter \<^verbatim>\<open>filepath\<close> is not
  used by the source. No \<^verbatim>\<open>bytes.fromhex\<close> of the function is inside a \<^verbatim>\<open>try\<close>.
  Three blocks of the function body are definitions of their own: the comparison of
  the UID declaration, the BCC1 check on page 2 and the password and PACK check on
  pages 133 and 134.
\<close>

type_synonym check_result = "bool \<times> status \<times> string \<times> problem_details"

definition uid_field_matches_pages :: "string option \<Rightarrow> u8 list \<Rightarrow> bool" where
  "uid_field_matches_pages uid_field uid_bytes =
     (case uid_field of
        None \<Rightarrow> True
      | Some f \<Rightarrow> if length f \<noteq> 14 then False else f = hex_upper uid_bytes)"

definition check_bcc1 :: "pages \<Rightarrow> u8 \<Rightarrow> pyerr + bool" where
  "check_bcc1 pages expected_bcc1 =
     (if has_page pages 2
      then bindE (page_bytes pages 2) (\<lambda>page2.
             if length page2 \<ge> 1 then Inr (page2 ! 0 = expected_bcc1) else Inr False)
      else Inr False)"

definition check_password_pack :: "pages \<Rightarrow> u8 list \<Rightarrow> pyerr + (bool \<times> bool)" where
  "check_password_pack pages uid_bytes =
     (if has_page pages 133 \<and> has_page pages 134
      then
        let expected_password = calculate_password_from_uid uid_bytes in
        bindE (page_bytes pages 133) (\<lambda>page133.
        bindE (page_bytes pages 134) (\<lambda>page134.
          if length page133 \<ge> 4 \<and> length page134 \<ge> 4
          then Inr (Some (take 4 page133) = expected_password,
                    take 4 page134 = [0x80, 0x80, 0x00, 0x00])
          else Inr (False, False)))
      else Inr (False, False))"

definition check_uid_comprehensive :: "pages option \<Rightarrow> string option \<Rightarrow> pyerr + check_result" where
  "check_uid_comprehensive pages_opt uid_field =
     (case pages_opt of
        None \<Rightarrow> Inr (False, Missing_required_pages, [], all_false)
      | Some pages \<Rightarrow>
          if pages = [] \<or> \<not> has_page pages 0 \<or> \<not> has_page pages 1
          then Inr (False, Missing_required_pages, [], all_false)
          else
            bindE (page_bytes pages 0) (\<lambda>page0.
            bindE (page_bytes pages 1) (\<lambda>page1.
              let uid_bytes = take 3 page0 @ take 4 page1 in
              if length uid_bytes < 7 then Inr (False, Invalid_UID_length, [], all_false)
              else
                let sn0 = uid_bytes ! 0; sn1 = uid_bytes ! 1; sn2 = uid_bytes ! 2;
                    sn3 = uid_bytes ! 3; sn4 = uid_bytes ! 4; sn5 = uid_bytes ! 5;
                    sn6 = uid_bytes ! 6;
                    uid_hex = hex_spaced uid_bytes;
                    expected_bcc0 = 0x88 XOR sn0 XOR sn1 XOR sn2;
                    expected_bcc1 = sn3 XOR sn4 XOR sn5 XOR sn6;
                    bcc0_valid = (if length page0 \<ge> 4 then page0 ! 3 = expected_bcc0 else False)
                in
                bindE (check_bcc1 pages expected_bcc1) (\<lambda>bcc1_valid.
                bindE (check_password_pack pages uid_bytes) (\<lambda>(password_valid, pack_valid).
                bindE (validate_dlb_and_cfg (Some pages))
                  (\<lambda>(dlb_cfg_valid, dlb_valid, cfg0_valid, cfg1_valid).
                let sn3_valid = (\<not> (sn3 = 0x88));
                    all_valid = (sn3_valid \<and> bcc0_valid \<and> bcc1_valid \<and> password_valid
                                 \<and> pack_valid \<and> dlb_cfg_valid)
                in Inr (all_valid, Field_report, uid_hex,
                     \<lparr>pd_uid_field = uid_field_matches_pages uid_field uid_bytes,
                      pd_sn3 = sn3_valid,
                      pd_bcc0 = bcc0_valid, pd_bcc1 = bcc1_valid,
                      pd_password = password_valid, pd_pack = pack_valid,
                      pd_dlb = dlb_valid, pd_cfg0 = cfg0_valid, pd_cfg1 = cfg1_valid\<rparr>)))))))"

section \<open>Text codec\<close>

text \<open>
  The three regular expressions of the source are searched with \<^verbatim>\<open>re.search\<close>: the
  leftmost position where the pattern matches. For a \<^verbatim>\<open>str\<close> pattern, \<^verbatim>\<open>\s\<close> is Unicode
  white space (below 256: 9 to 13, 28 to 32, 133 and 160) and \<^verbatim>\<open>\d\<close> a decimal digit
  (below 256: \<^verbatim>\<open>0\<close> to \<^verbatim>\<open>9\<close>).
\<close>

definition re_space :: "char \<Rightarrow> bool" where
  "re_space c = (of_char c \<in> {9, 10, 11, 12, 13, 28, 29, 30, 31, 32, 133, 160 :: nat})"

definition re_digit :: "char \<Rightarrow> bool" where
  "re_digit c = (48 \<le> (of_char c :: nat) \<and> (of_char c :: nat) \<le> 57)"

definition re_hex_or_space :: "char \<Rightarrow> bool" where
  "re_hex_or_space c = (digit_value c \<noteq> None \<or> re_space c)"

text \<open>
  \<^verbatim>\<open>\s*([0-9A-Fa-f\s]+)\<close> at the start of a string; the result is the group. Both
  repetitions are greedy. When the white space is followed by a hexadecimal digit the
  group starts there. Otherwise the matcher backtracks: \<^verbatim>\<open>\s*\<close> gives its last
  character to the group, which then is that one character.
\<close>

definition match_hex_group :: "string \<Rightarrow> string option" where
  "match_hex_group s =
     (let ws = takeWhile re_space s;
          run = takeWhile re_hex_or_space (dropWhile re_space s)
      in if run \<noteq> [] then Some run
         else if ws \<noteq> [] then Some [last ws]
         else None)"

text \<open>\<^verbatim>\<open>UID:\s*([0-9A-Fa-f\s]+)\<close> at the start of a string.\<close>

definition uid_match_at :: "string \<Rightarrow> string option" where
  "uid_match_at s = (if take 4 s = ''UID:'' then match_hex_group (drop 4 s) else None)"

text \<open>\<^verbatim>\<open>Version:\s*(\d+)\<close> at the start of a string.\<close>

definition version_match_at :: "string \<Rightarrow> string option" where
  "version_match_at s =
     (if take 8 s = ''Version:''
      then let ds = takeWhile re_digit (dropWhile re_space (drop 8 s))
           in if ds = [] then None else Some ds
      else None)"

text \<open>
  \<^verbatim>\<open>Page\s+(\d+):\s*([0-9A-Fa-f\s]+)\<close> at the start of a string; the result is
  the two groups.
\<close>

definition page_match_at :: "string \<Rightarrow> (string \<times> string) option" where
  "page_match_at s =
     (if take 4 s = ''Page''
      then let s1 = drop 4 s;
               ws = takeWhile re_space s1;
               s2 = dropWhile re_space s1;
               ds = takeWhile re_digit s2;
               s3 = dropWhile re_digit s2
           in if ws = [] \<or> ds = [] then None
              else (case s3 of
                      [] \<Rightarrow> None
                    | c # s4 \<Rightarrow>
                        if c = CHR '':'' then map_option (\<lambda>g. (ds, g)) (match_hex_group s4)
                        else None)
      else None)"

fun re_search :: "(string \<Rightarrow> 'a option) \<Rightarrow> string \<Rightarrow> 'a option" where
  "re_search m [] = m []"
| "re_search m (c # cs) = (case m (c # cs) of Some r \<Rightarrow> Some r | None \<Rightarrow> re_search m cs)"

definition uid_match :: "string \<Rightarrow> string option" where
  "uid_match line = re_search uid_match_at line"

definition version_match :: "string \<Rightarrow> string option" where
  "version_match line = re_search version_match_at line"

definition page_match :: "string \<Rightarrow> (string \<times> string) option" where
  "page_match line = re_search page_match_at line"

text \<open>
  \<^verbatim>\<open>int(group)\<close> on a string of decimal digits. CPython refuses more than 4300 digits
  with \<^verbatim>\<open>ValueError\<close> (the default limit of Python 3.11 and of the security releases
  of older versions).
\<close>

definition dec_value :: "string \<Rightarrow> nat" where
  "dec_value ds = foldl (\<lambda>n c. 10 * n + (of_char c - 48)) 0 ds"

definition py_int :: "string \<Rightarrow> pyerr + nat" where
  "py_int ds = (if length ds > 4300 then Inl ValueError else Inr (dec_value ds))"

text \<open>
  \<^verbatim>\<open>s.replace(' ', '')\<close> and \<^verbatim>\<open>s.upper()\<close>. The source applies \<^verbatim>\<open>upper\<close> to digits,
  hexadecimal letters and white space only; there it changes \<^verbatim>\<open>a\<close> to \<^verbatim>\<open>f\<close>.
\<close>

definition remove_spaces :: "string \<Rightarrow> string" where
  "remove_spaces s = filter (\<lambda>c. c \<noteq> CHR '' '') s"

definition upper_char :: "char \<Rightarrow> char" where
  "upper_char c =
     (if 97 \<le> (of_char c :: nat) \<and> (of_char c :: nat) \<le> 122
      then char_of ((of_char c :: nat) - 32) else c)"

definition upper :: "string \<Rightarrow> string" where
  "upper s = map upper_char s"

text \<open>\<^verbatim>\<open>content.split('\n')\<close> and \<^verbatim>\<open>'\n'.join(lines)\<close>\<close>

fun split_lines :: "string \<Rightarrow> string list" where
  "split_lines [] = [[]]"
| "split_lines (c # cs) =
     (if c = CHR 0x0A then [] # split_lines cs
      else (case split_lines cs of
              [] \<Rightarrow> [[c]]
            | l # ls \<Rightarrow> (c # l) # ls))"

definition join_lines :: "string list \<Rightarrow> string" where
  "join_lines ls = join [CHR 0x0A] ls"

text \<open>
  The body of the \<^verbatim>\<open>try\<close> of \<^verbatim>\<open>extract_pages_from_nfc\<close> after the file is read: one
  pass over the lines. A later line of the same page number overwrites the earlier value
  and keeps the key's position, as a Python dictionary does.
\<close>

record nfc_parse =
  np_pages :: pages
  np_content :: string
  np_lines :: "string list"
  np_uid_field :: "string option"
  np_version :: "nat option"

fun parse_lines :: "string list \<Rightarrow> pages \<Rightarrow> string option \<Rightarrow> nat option
      \<Rightarrow> pyerr + (pages \<times> string option \<times> nat option)" where
  "parse_lines [] pages uid_field version = Inr (pages, uid_field, version)"
| "parse_lines (line # rest) pages uid_field version =
     (let uid_field' = (case uid_match line of
                          None \<Rightarrow> uid_field
                        | Some g \<Rightarrow> Some (upper (remove_spaces g)))
      in
      bindE (case version_match line of
               None \<Rightarrow> Inr version
             | Some ds \<Rightarrow> bindE (py_int ds) (\<lambda>v. Inr (Some v))) (\<lambda>version'.
      bindE (case page_match line of
               None \<Rightarrow> Inr pages
             | Some (ds, g) \<Rightarrow>
                 bindE (py_int ds) (\<lambda>page_num.
                   Inr (AList.update page_num (remove_spaces g) pages))) (\<lambda>pages'.
      parse_lines rest pages' uid_field' version')))"

definition parse_nfc :: "string \<Rightarrow> pyerr + nfc_parse" where
  "parse_nfc content =
     (let lines = split_lines content in
      bindE (parse_lines lines [] None None) (\<lambda>(pages, uid_field, version).
        Inr \<lparr>np_pages = pages, np_content = content, np_lines = lines,
             np_uid_field = uid_field, np_version = version\<rparr>))"

section \<open>Version upgrader: the V4 document\<close>

text \<open>\<^verbatim>\<open>f"{page_num}"\<close>: a natural number in decimal.\<close>

fun show_nat :: "nat \<Rightarrow> string" where
  "show_nat n = (if n < 10 then [hexdigit n] else show_nat (n div 10) @ [hexdigit (n mod 10)])"

text \<open>\<^verbatim>\<open>page_data[i:i+2] for i in range(0, len(page_data), 2)\<close>\<close>

fun pairs :: "string \<Rightarrow> string list" where
  "pairs [] = []"
| "pairs [c] = [[c]]"
| "pairs (c # d # cs) = [c, d] # pairs cs"

definition v4_header :: "string \<Rightarrow> nat \<Rightarrow> string list" where
  "v4_header uid_hex page_count =
     [''Filetype: Flipper NFC device'',
      ''Version: 4'',
      ''# Device type can be ISO14443-3A, ISO14443-3B, ISO14443-4A, ISO14443-4B, ISO15693-3, FeliCa, NTAG/Ultralight, Mifare Classic, Mifare Plus, Mifare DESFire, SLIX, ST25TB, EMV'',
      ''Device type: NTAG/Ultralight'',
      ''# UID is common for all formats'',
      ''UID: '' @ uid_hex,
      ''# ISO14443-3A specific data'',
      ''ATQA: 00 44'',
      ''SAK: 00'',
      ''# NTAG/Ultralight specific data'',
      ''Data format version: 2'',
      ''NTAG/Ultralight type: NTAG215'',
      ''Signature: 00 00 00 00 00 00 00 00 00 00 00 00 00 00 00 00 00 00 00 00 00 00 00 00 00 00 00 00 00 00 00 00'',
      ''Mifare version: 00 04 04 02 01 00 11 03'',
      ''Counter 0: 0'',
      ''Tearing 0: 00'',
      ''Counter 1: 0'',
      ''Tearing 1: 00'',
      ''Counter 2: 0'',
      ''Tearing 2: 00'',
      ''Pages total: '' @ show_nat page_count,
      ''Pages read: '' @ show_nat page_count]"

definition v4_page_line :: "pages \<Rightarrow> nat \<Rightarrow> string" where
  "v4_page_line pages page_num =
     (case map_of pages page_num of
        Some page_data \<Rightarrow> ''Page '' @ show_nat page_num @ '': '' @ upper (join '' '' (pairs page_data))
      | None \<Rightarrow> ''Page '' @ show_nat page_num @ '': 00 00 00 00'')"

text \<open>
  \<^verbatim>\<open>convert_to_v4_format(pages, original_lines)\<close>. The page table has
  \<^verbatim>\<open>max(pages.keys()) + 1\<close> entries, and 135 only when \<^verbatim>\<open>pages\<close> is empty.
\<close>

definition v4_page_count :: "pages \<Rightarrow> nat" where
  "v4_page_count pages = (if pages = [] then 135 else Max (set (map fst pages)) + 1)"

definition convert_to_v4_format :: "pages \<Rightarrow> string list \<Rightarrow> pyerr + string" where
  "convert_to_v4_format pages original_lines =
     bindE (if has_page pages 0 \<and> has_page pages 1
            then bindE (page_bytes pages 0) (\<lambda>page0_bytes.
                 bindE (page_bytes pages 1) (\<lambda>page1_bytes.
                   Inr (hex_spaced (take 3 page0_bytes @ take 4 page1_bytes))))
            else Inr ''04 AB 73 54 B8 B6 0F'') (\<lambda>uid_hex.
       let page_count = v4_page_count pages;
           page_lines = map (v4_page_line pages) [0..<page_count]
       in Inr (join_lines (v4_header uid_hex page_count) @ [CHR 0x0A]
               @ join_lines page_lines @ [CHR 0x0A]
               @ ''Failed authentication attempts: 0'' @ [CHR 0x0A]))"

section \<open>Files, backups and the random source\<close>

text \<open>
  The program's environment. \<open>text_of w p\<close> is what reading the file \<open>p\<close> as UTF-8 text
  returns and \<open>bytes_of w p\<close> what reading it as bytes returns; \<open>None\<close> means that the
  read raises. The program reads a file in one mode only, chosen by its suffix.
  \<open>write_ok\<close> and \<open>copy_ok\<close> say whether writing to a path and copying it to the
  backup folder succeed; a write that fails leaves the file as it was.
  \<open>backup_tracker\<close> is the set of that name, \<open>backups\<close> the files copied so far.
  \<open>rand\<close> is the sequence of values that \<^verbatim>\<open>random.randint(0, 255)\<close> returns and
  \<open>rand_pos\<close> the number of values drawn so far.
\<close>

type_synonym path = string

record world =
  text_of :: "path \<rightharpoonup> string"
  bytes_of :: "path \<rightharpoonup> u8 list"
  write_ok :: "path \<Rightarrow> bool"
  copy_ok :: "path \<Rightarrow> bool"
  backup_tracker :: "path set"
  backups :: "path list"
  rand :: "nat \<Rightarrow> u8"
  rand_pos :: nat

text \<open>
  A computation that can loop for ever or raise: \<open>None\<close> is no return,
  \<open>Some (Inl e)\<close> the exception \<open>e\<close>, \<open>Some (Inr x)\<close> the result \<open>x\<close>.
\<close>

type_synonym 'a run = "(pyerr + 'a) option"

definition bindR :: "'a run \<Rightarrow> ('a \<Rightarrow> 'b run) \<Rightarrow> 'b run" where
  "bindR m f = (case m of None \<Rightarrow> None | Some (Inl e) \<Rightarrow> Some (Inl e) | Some (Inr x) \<Rightarrow> f x)"

definition ret :: "'a \<Rightarrow> 'a run" where
  "ret x = Some (Inr x)"

text \<open>
  \<^verbatim>\<open>backup_file\<close>: the result is the backup path or \<^verbatim>\<open>None\<close>. The file is entered in
  the tracker before the copy is tried, and a copy that fails is caught.
\<close>

definition backup_file :: "world \<Rightarrow> path \<Rightarrow> path option \<times> world" where
  "backup_file w filepath =
     (if filepath \<in> backup_tracker w then (None, w)
      else
        let w1 = w\<lparr>backup_tracker := insert filepath (backup_tracker w)\<rparr> in
        if copy_ok w filepath
        then (Some filepath, w1\<lparr>backups := backups w1 @ [filepath]\<rparr>)
        else (None, w1))"

text \<open>
  \<^verbatim>\<open>extract_pages_from_nfc\<close>: every exception of the read and of the parse is caught
  and the function returns \<^verbatim>\<open>None\<close> five times, here \<open>None\<close>.
\<close>

definition extract_pages_from_nfc :: "world \<Rightarrow> path \<Rightarrow> nfc_parse option" where
  "extract_pages_from_nfc w filepath =
     (case text_of w filepath of
        None \<Rightarrow> None
      | Some content \<Rightarrow> (case parse_nfc content of Inl e \<Rightarrow> None | Inr p \<Rightarrow> Some p))"

text \<open>
  \<^verbatim>\<open>extract_pages_from_bin\<close>: \<open>None\<close> is the pair \<^verbatim>\<open>(None, None)\<close>. The eight keys are
  entered in the order of the source's list.
\<close>

definition bin_pages :: "u8 list \<Rightarrow> pages" where
  "bin_pages data =
     map (\<lambda>page_num. (page_num, hex_upper (take 4 (drop (page_num * 4) data))))
       (filter (\<lambda>page_num. page_num * 4 + 4 \<le> length data) [0, 1, 2, 130, 131, 132, 133, 134])"

definition extract_pages_from_bin :: "world \<Rightarrow> path \<Rightarrow> (pages \<times> u8 list) option" where
  "extract_pages_from_bin w filepath =
     (case bytes_of w filepath of
        None \<Rightarrow> None
      | Some data \<Rightarrow> if length data < 540 then None else Some (bin_pages data, data))"

text \<open>
  The loop of \<^verbatim>\<open>fix_uid_if_sn3_is_88\<close>: draw until the value is not 0x88. It does not
  return when the source yields 0x88 for ever.
\<close>

partial_function (option) draw_not_88 :: "(nat \<Rightarrow> u8) \<Rightarrow> nat \<Rightarrow> (u8 \<times> nat) option" where
  "draw_not_88 rnd i = (if rnd i = 0x88 then draw_not_88 rnd (Suc i) else Some (rnd i, Suc i))"

declare draw_not_88.simps [code]

text \<open>
  \<^verbatim>\<open>fix_uid_if_sn3_is_88(uid_bytes)\<close> returns \<^verbatim>\<open>(uid_bytes, was_fixed)\<close>; the model
  also returns the new position in the random sequence.
\<close>

definition fix_uid_if_sn3_is_88 :: "(nat \<Rightarrow> u8) \<Rightarrow> nat \<Rightarrow> u8 list \<Rightarrow> (u8 list \<times> bool \<times> nat) option" where
  "fix_uid_if_sn3_is_88 rnd i uid_bytes =
     (if length uid_bytes \<ge> 4 \<and> uid_bytes ! 3 = 0x88
      then (case draw_not_88 rnd i of
              None \<Rightarrow> None
            | Some (new_sn3, i') \<Rightarrow> Some (uid_bytes[3 := new_sn3], True, i'))
      else Some (uid_bytes, False, i))"

section \<open>Repair planner\<close>

record fix_flags =
  fix_uid :: bool
  fix_bcc :: bool
  fix_password :: bool
  fix_pack :: bool
  fix_dlb :: bool
  fix_cfg :: bool

text \<open>
  An entry of \<^verbatim>\<open>changes_made\<close>. The source appends a text with the old and the new
  value; the model keeps which field the entry is about.
\<close>

datatype change = Fixed_UID_field | Fixed_SN3 | Fixed_BCC0 | Fixed_BCC1 | Fixed_Password
  | Fixed_PACK | Fixed_DLB | Fixed_CFG0 | Fixed_CFG1

text \<open>
  What the planning part of \<^verbatim>\<open>fix_nfc_file\<close> and \<^verbatim>\<open>fix_bin_file\<close> leaves in its local
  variables: the UID after the SN3 repair, \<^verbatim>\<open>correct_bcc0\<close>, \<^verbatim>\<open>correct_bcc1\<close>,
  \<^verbatim>\<open>correct_password\<close>, \<^verbatim>\<open>changes_made\<close> and \<^verbatim>\<open>issue_types\<close>.
\<close>

record repair_plan =
  rp_uid :: "u8 list"
  rp_bcc0 :: u8
  rp_bcc1 :: u8
  rp_password :: "u8 list"
  rp_changes :: "change list"
  rp_issues :: problem_details

text \<open>
  The block the source repeats for pages 133, 134, 130, 131 and 132:
  \<^verbatim>\<open>if flag and n in pages: b = bytes.fromhex(pages[n]); if len(b) >= 4: if list(b[:4]) != correct: ...\<close>.
  The result says whether the field is scheduled.
\<close>

definition page_needs_fix :: "bool \<Rightarrow> pages \<Rightarrow> nat \<Rightarrow> u8 list \<Rightarrow> pyerr + bool" where
  "page_needs_fix flag pages n correct =
     (if flag \<and> has_page pages n
      then bindE (page_bytes pages n) (\<lambda>b. Inr (length b \<ge> 4 \<and> take 4 b \<noteq> correct))
      else Inr False)"

text \<open>
  The planning of both repair functions from the unpacking of the UID on (lines 463 to
  535 and 634 to 706), given the entries made before it. The two copies differ in one
  place: the binary one reads \<^verbatim>\<open>page0_bytes[3]\<close> unguarded (\<open>strict\<close>), the text one
  takes 0 when page 0 has fewer than 4 bytes. Unpacking a UID that has not 7 bytes
  raises \<^verbatim>\<open>ValueError\<close>.
\<close>

definition plan_fields :: "bool \<Rightarrow> fix_flags \<Rightarrow> pages \<Rightarrow> u8 list \<Rightarrow> u8 list
    \<Rightarrow> change list \<Rightarrow> problem_details \<Rightarrow> pyerr + repair_plan" where
  "plan_fields strict flags pages page0_bytes uid_bytes changes0 issues0 =
     (if length uid_bytes \<noteq> 7 then Inl ValueError
      else
        let sn0 = uid_bytes ! 0; sn1 = uid_bytes ! 1; sn2 = uid_bytes ! 2; sn3 = uid_bytes ! 3;
            sn4 = uid_bytes ! 4; sn5 = uid_bytes ! 5; sn6 = uid_bytes ! 6;
            correct_bcc0 = 0x88 XOR sn0 XOR sn1 XOR sn2;
            correct_bcc1 = sn3 XOR sn4 XOR sn5 XOR sn6
        in
        bindE (if length page0_bytes \<ge> 4 then Inr (page0_bytes ! 3)
               else if strict then Inl IndexError else Inr 0) (\<lambda>current_bcc0.
        let bcc0_fix = (fix_bcc flags \<and> current_bcc0 \<noteq> correct_bcc0) in
        bindE (if fix_bcc flags \<and> has_page pages 2
               then bindE (page_bytes pages 2) (\<lambda>page2_bytes.
                      Inr (length page2_bytes \<ge> 1 \<and> page2_bytes ! 0 \<noteq> correct_bcc1))
               else Inr False) (\<lambda>bcc1_fix.
        bindE (case calculate_password_from_uid uid_bytes of
                 None \<Rightarrow> Inl TypeError
               | Some p \<Rightarrow> Inr p) (\<lambda>correct_password.
        bindE (page_needs_fix (fix_password flags) pages 133 correct_password) (\<lambda>password_fix.
        bindE (page_needs_fix (fix_pack flags) pages 134 [0x80, 0x80, 0x00, 0x00]) (\<lambda>pack_fix.
        bindE (page_needs_fix (fix_dlb flags) pages 130 [0x01, 0x00, 0x0F, 0xBF]) (\<lambda>dlb_fix.
        bindE (page_needs_fix (fix_cfg flags) pages 131 [0x00, 0x00, 0x00, 0x04]) (\<lambda>cfg0_fix.
        bindE (page_needs_fix (fix_cfg flags) pages 132 [0x5F, 0x00, 0x00, 0x00]) (\<lambda>cfg1_fix.
          Inr \<lparr>rp_uid = uid_bytes, rp_bcc0 = correct_bcc0, rp_bcc1 = correct_bcc1,
               rp_password = correct_password,
               rp_changes = changes0
                 @ (if bcc0_fix then [Fixed_BCC0] else [])
                 @ (if bcc1_fix then [Fixed_BCC1] else [])
                 @ (if password_fix then [Fixed_Password] else [])
                 @ (if pack_fix then [Fixed_PACK] else [])
                 @ (if dlb_fix then [Fixed_DLB] else [])
                 @ (if cfg0_fix then [Fixed_CFG0] else [])
                 @ (if cfg1_fix then [Fixed_CFG1] else []),
               rp_issues = issues0\<lparr>pd_bcc0 := bcc0_fix, pd_bcc1 := bcc1_fix,
                 pd_password := password_fix, pd_pack := pack_fix, pd_dlb := dlb_fix,
                 pd_cfg0 := cfg0_fix, pd_cfg1 := cfg1_fix\<rparr>\<rparr>)))))))))"

text \<open>
  The planning part of \<^verbatim>\<open>fix_nfc_file\<close> (lines 431 to 535) and of \<^verbatim>\<open>fix_bin_file\<close>
  (lines 611 to 706). For a binary file there is no UID declaration: \<open>uid_field\<close> is
  \<open>None\<close> and \<open>strict\<close> is true.
\<close>

definition repair_planner :: "bool \<Rightarrow> world \<Rightarrow> fix_flags \<Rightarrow> pages \<Rightarrow> string option
    \<Rightarrow> (repair_plan \<times> world) run" where
  "repair_planner strict w flags pages uid_field =
     bindR (Some (page_bytes pages 0)) (\<lambda>page0_bytes.
     bindR (Some (page_bytes pages 1)) (\<lambda>page1_bytes.
       let uid_bytes = take 3 page0_bytes @ take 4 page1_bytes;
           uid_field_fix =
             (fix_uid flags \<and>
              (case uid_field of
                 None \<Rightarrow> False
               | Some f \<Rightarrow> f \<noteq> [] \<and> length f = 14 \<and> f \<noteq> hex_upper uid_bytes))
       in
       bindR (if fix_uid flags
              then map_option Inr (fix_uid_if_sn3_is_88 (rand w) (rand_pos w) uid_bytes)
              else ret (uid_bytes, False, rand_pos w)) (\<lambda>(uid_bytes', sn3_was_fixed, pos').
       bindR (Some (plan_fields strict flags pages page0_bytes uid_bytes'
                ((if uid_field_fix then [Fixed_UID_field] else [])
                 @ (if sn3_was_fixed then [Fixed_SN3] else []))
                (all_false\<lparr>pd_uid_field := uid_field_fix, pd_sn3 := sn3_was_fixed\<rparr>))) (\<lambda>plan.
         ret (plan, w\<lparr>rand_pos := pos'\<rparr>)))))"

section \<open>Text encoder: \<^verbatim>\<open>fix_nfc_file\<close>\<close>

text \<open>\<^verbatim>\<open>f"{a:02X} {b:02X} {c:02X} {d:02X}"\<close> after a line's fixed prefix.\<close>

definition page_line :: "string \<Rightarrow> u8 list \<Rightarrow> string" where
  "page_line prefix bs = prefix @ hex_spaced bs"

text \<open>
  One pass of the rewriting loop (lines 542 to 590). A line that matches the UID
  pattern is replaced when \<^verbatim>\<open>fix_uid\<close> is set; a line that matches the page pattern
  is replaced when its number is tracked and the flag of that page is set. The branch
  for page 2 indexes \<^verbatim>\<open>page2_bytes[1]\<close> to \<^verbatim>\<open>page2_bytes[3]\<close> unguarded.
\<close>

definition rewrite_line :: "fix_flags \<Rightarrow> pages \<Rightarrow> repair_plan \<Rightarrow> string \<Rightarrow> pyerr + string" where
  "rewrite_line flags pages plan line =
     (if uid_match line \<noteq> None \<and> fix_uid flags
      then Inr (page_line ''UID: '' (take 7 (rp_uid plan)))
      else (case page_match line of
              None \<Rightarrow> Inr line
            | Some (ds, g) \<Rightarrow>
                bindE (py_int ds) (\<lambda>page_num.
                  if page_num = 0 \<and> (fix_uid flags \<or> fix_bcc flags)
                  then Inr (page_line ''Page 0: '' (take 3 (rp_uid plan) @ [rp_bcc0 plan]))
                  else if page_num = 1 \<and> fix_uid flags
                  then Inr (page_line ''Page 1: '' (take 4 (drop 3 (rp_uid plan))))
                  else if page_num = 2 \<and> fix_bcc flags
                  then bindE (page_bytes pages 2) (\<lambda>page2_bytes.
                         if length page2_bytes < 4 then Inl IndexError
                         else Inr (page_line ''Page 2: ''
                                [rp_bcc1 plan, page2_bytes ! 1, page2_bytes ! 2, page2_bytes ! 3]))
                  else if page_num = 130 \<and> fix_dlb flags
                  then Inr (page_line ''Page 130: '' [0x01, 0x00, 0x0F, 0xBF])
                  else if page_num = 131 \<and> fix_cfg flags
                  then Inr (page_line ''Page 131: '' [0x00, 0x00, 0x00, 0x04])
                  else if page_num = 132 \<and> fix_cfg flags
                  then Inr (page_line ''Page 132: '' [0x5F, 0x00, 0x00, 0x00])
                  else if page_num = 133 \<and> fix_password flags
                  then Inr (page_line ''Page 133: '' (take 4 (rp_password plan)))
                  else if page_num = 134 \<and> fix_pack flags
                  then Inr (page_line ''Page 134: '' [0x80, 0x80, 0x00, 0x00])
                  else Inr line)))"

text \<open>The \<^verbatim>\<open>for\<close> loop: the first exception ends it.\<close>

fun mapE :: "('a \<Rightarrow> pyerr + 'b) \<Rightarrow> 'a list \<Rightarrow> pyerr + 'b list" where
  "mapE f [] = Inr []"
| "mapE f (x # xs) = bindE (f x) (\<lambda>y. bindE (mapE f xs) (\<lambda>ys. Inr (y # ys)))"

text \<open>
  The messages the repair and conversion functions return, and their result
  \<^verbatim>\<open>(success, message, issue_types)\<close>; \<open>None\<close> is the empty dictionary.
\<close>

datatype fix_message = Could_not_read_file | Missing_required_pages_0_or_1 | No_changes_needed
  | Fixed_successfully "path option" "change list" | Error_writing_file
  | Already_V4 | Unsupported_version "nat option" | Converted_to_V4 "nat option" "path option"
  | Error_converting_file

type_synonym fix_result = "bool \<times> fix_message \<times> problem_details option"

definition fix_nfc_file :: "world \<Rightarrow> path \<Rightarrow> fix_flags \<Rightarrow> (fix_result \<times> world) run" where
  "fix_nfc_file w filepath flags =
     (case extract_pages_from_nfc w filepath of
        None \<Rightarrow> ret ((False, Could_not_read_file, None), w)
      | Some p \<Rightarrow>
          let pages = np_pages p; lines = np_lines p; uid_field = np_uid_field p in
          if pages = [] then ret ((False, Could_not_read_file, None), w)
          else if \<not> has_page pages 0 \<or> \<not> has_page pages 1
          then ret ((False, Missing_required_pages_0_or_1, None), w)
          else
            bindR (repair_planner False w flags pages uid_field) (\<lambda>(plan, w1).
              if rp_changes plan = [] then ret ((True, No_changes_needed, None), w1)
              else
                let (backup_path, w2) = backup_file w1 filepath in
                bindR (Some (mapE (rewrite_line flags pages plan) lines)) (\<lambda>new_lines.
                  if write_ok w2 filepath
                  then ret ((True, Fixed_successfully backup_path (rp_changes plan),
                             Some (rp_issues plan)),
                            w2\<lparr>text_of := (text_of w2)(filepath \<mapsto> join_lines new_lines)\<rparr>)
                  else ret ((False, Error_writing_file, None), w2))))"

section \<open>Binary encoder: \<^verbatim>\<open>fix_bin_file\<close>\<close>

text \<open>
  \<^verbatim>\<open>new_data[i] = b\<close> on a \<^verbatim>\<open>bytearray\<close> raises \<^verbatim>\<open>IndexError\<close> out of range;
  \<^verbatim>\<open>new_data[i:j] = bs\<close> replaces the slice.
\<close>

definition set_byte :: "u8 list \<Rightarrow> nat \<Rightarrow> u8 \<Rightarrow> pyerr + u8 list" where
  "set_byte d i b = (if i < length d then Inr (d[i := b]) else Inl IndexError)"

definition set_slice :: "u8 list \<Rightarrow> nat \<Rightarrow> nat \<Rightarrow> u8 list \<Rightarrow> u8 list" where
  "set_slice d i j bs = take i d @ bs @ drop (max i j) d"

definition patch_bin :: "fix_flags \<Rightarrow> pages \<Rightarrow> repair_plan \<Rightarrow> u8 list \<Rightarrow> pyerr + u8 list" where
  "patch_bin flags pages plan original_data =
     (let uid = rp_uid plan in
      bindE (if fix_uid flags
             then bindE (set_byte original_data 0 (uid ! 0)) (\<lambda>d.
                  bindE (set_byte d 1 (uid ! 1)) (\<lambda>d.
                  set_byte d 2 (uid ! 2)))
             else Inr original_data) (\<lambda>d1.
      bindE (if fix_bcc flags then set_byte d1 3 (rp_bcc0 plan) else Inr d1) (\<lambda>d2.
      bindE (if fix_uid flags
             then bindE (set_byte d2 4 (uid ! 3)) (\<lambda>d.
                  bindE (set_byte d 5 (uid ! 4)) (\<lambda>d.
                  bindE (set_byte d 6 (uid ! 5)) (\<lambda>d.
                  set_byte d 7 (uid ! 6))))
             else Inr d2) (\<lambda>d3.
      bindE (if fix_bcc flags \<and> has_page pages 2 then set_byte d3 8 (rp_bcc1 plan)
             else Inr d3) (\<lambda>d4.
      let d5 = (if fix_dlb flags \<and> has_page pages 130
                then set_slice d4 520 524 [0x01, 0x00, 0x0F, 0xBF] else d4);
          d6 = (if fix_cfg flags \<and> has_page pages 131
                then set_slice d5 524 528 [0x00, 0x00, 0x00, 0x04] else d5);
          d7 = (if fix_cfg flags \<and> has_page pages 132
                then set_slice d6 528 532 [0x5F, 0x00, 0x00, 0x00] else d6);
          d8 = (if fix_password flags \<and> has_page pages 133
                then set_slice d7 532 536 (rp_password plan) else d7);
          d9 = (if fix_pack flags \<and> has_page pages 134
                then set_slice d8 536 540 [0x80, 0x80, 0x00, 0x00] else d8)
      in Inr d9)))))"

definition fix_bin_file :: "world \<Rightarrow> path \<Rightarrow> fix_flags \<Rightarrow> (fix_result \<times> world) run" where
  "fix_bin_file w filepath flags =
     (case extract_pages_from_bin w filepath of
        None \<Rightarrow> ret ((False, Could_not_read_file, None), w)
      | Some (pages, original_data) \<Rightarrow>
          if pages = [] then ret ((False, Could_not_read_file, None), w)
          else if \<not> has_page pages 0 \<or> \<not> has_page pages 1
          then ret ((False, Missing_required_pages_0_or_1, None), w)
          else
            bindR (repair_planner True w flags pages None) (\<lambda>(plan, w1).
              if rp_changes plan = [] then ret ((True, No_changes_needed, None), w1)
              else
                let (backup_path, w2) = backup_file w1 filepath in
                bindR (Some (patch_bin flags pages plan original_data)) (\<lambda>new_data.
                  if write_ok w2 filepath
                  then ret ((True, Fixed_successfully backup_path (rp_changes plan),
                             Some (rp_issues plan)),
                            w2\<lparr>bytes_of := (bytes_of w2)(filepath \<mapsto> new_data)\<rparr>)
                  else ret ((False, Error_writing_file, None), w2))))"

section \<open>Version upgrader: \<^verbatim>\<open>convert_nfc_to_v4\<close>\<close>

text \<open>
  The whole body is inside a \<^verbatim>\<open>try\<close>, so the function always returns. Its parsing loop
  collects the version and the pages as \<open>parse_lines\<close> does. The third component of the
  result is the entry \<^verbatim>\<open>version_conversion\<close> of the returned dictionary.
\<close>

definition convert_nfc_to_v4 :: "world \<Rightarrow> path \<Rightarrow> (bool \<times> fix_message \<times> bool) \<times> world" where
  "convert_nfc_to_v4 w filepath =
     (case text_of w filepath of
        None \<Rightarrow> ((False, Error_converting_file, False), w)
      | Some content \<Rightarrow>
          (case parse_nfc content of
             Inl e \<Rightarrow> ((False, Error_converting_file, False), w)
           | Inr p \<Rightarrow>
               let version = np_version p; pages = np_pages p; lines = np_lines p in
               if version = Some 4 then ((True, Already_V4, False), w)
               else if version \<noteq> Some 2 \<and> version \<noteq> Some 3
               then ((False, Unsupported_version version, False), w)
               else
                 let (backup_path, w1) = backup_file w filepath in
                 (case convert_to_v4_format pages lines of
                    Inl e \<Rightarrow> ((False, Error_converting_file, False), w1)
                  | Inr new_content \<Rightarrow>
                      if write_ok w1 filepath
                      then ((True, Converted_to_V4 version backup_path, True),
                            w1\<lparr>text_of := (text_of w1)(filepath \<mapsto> new_content)\<rparr>)
                      else ((False, Error_converting_file, False), w1))))"

section \<open>The batch: \<^verbatim>\<open>scan_and_fix_directory\<close>\<close>

datatype file_type = NFC | BIN

record scan_config =
  sc_flags :: fix_flags
  sc_convert_to_v4 :: bool
  sc_dry_run :: bool

text \<open>
  An entry of \<^verbatim>\<open>all_files\<close>. \<open>fi_would_convert\<close> stands for the note that the dry run
  appends to the status text.
\<close>

record file_info =
  fi_path :: path
  fi_is_valid :: bool
  fi_status :: status
  fi_would_convert :: bool
  fi_uid_hex :: string
  fi_problems :: problem_details
  fi_was_fixed :: bool
  fi_was_converted :: bool
  fi_file_type :: file_type
  fi_version :: "nat option"

text \<open>\<^verbatim>\<open>any(issue_types.values())\<close>\<close>

definition any_issue :: "problem_details option \<Rightarrow> bool" where
  "any_issue issue_types =
     (case issue_types of
        None \<Rightarrow> False
      | Some d \<Rightarrow> pd_uid_field d \<or> pd_sn3 d \<or> pd_bcc0 d \<or> pd_bcc1 d \<or> pd_password d
                  \<or> pd_pack d \<or> pd_dlb d \<or> pd_cfg0 d \<or> pd_cfg1 d)"

definition parsed_pages :: "nfc_parse option \<Rightarrow> pages option" where
  "parsed_pages p = map_option np_pages p"

definition parsed_uid_field :: "nfc_parse option \<Rightarrow> string option" where
  "parsed_uid_field p = (case p of None \<Rightarrow> None | Some q \<Rightarrow> np_uid_field q)"

definition parsed_version :: "nfc_parse option \<Rightarrow> nat option" where
  "parsed_version p = (case p of None \<Rightarrow> None | Some q \<Rightarrow> np_version q)"

definition make_info :: "path \<Rightarrow> file_type \<Rightarrow> nat option \<Rightarrow> bool \<Rightarrow> bool \<Rightarrow> bool
    \<Rightarrow> check_result \<Rightarrow> file_info" where
  "make_info filepath ft version would_convert was_fixed was_converted r =
     (case r of (is_valid, status, uid_hex, problems) \<Rightarrow>
        \<lparr>fi_path = filepath, fi_is_valid = is_valid, fi_status = status,
         fi_would_convert = would_convert, fi_uid_hex = uid_hex, fi_problems = problems,
         fi_was_fixed = was_fixed, fi_was_converted = was_converted,
         fi_file_type = ft, fi_version = version\<rparr>)"

text \<open>
  The loop body for a \<^verbatim>\<open>.nfc\<close> file (lines 779 to 831). None of the calls of
  \<^verbatim>\<open>check_uid_comprehensive\<close> and \<^verbatim>\<open>fix_nfc_file\<close> is inside a \<^verbatim>\<open>try\<close>.
\<close>

definition scan_nfc :: "scan_config \<Rightarrow> world \<Rightarrow> path \<Rightarrow> (file_info \<times> world) run" where
  "scan_nfc cfg w filepath =
     (let p = extract_pages_from_nfc w filepath;
          pages = parsed_pages p; uid_field = parsed_uid_field p; version = parsed_version p;
          needs_conversion = (sc_convert_to_v4 cfg \<and> (version = Some 2 \<or> version = Some 3))
      in
      if sc_dry_run cfg
      then bindR (Some (check_uid_comprehensive pages uid_field)) (\<lambda>r.
             ret (make_info filepath NFC version needs_conversion False False r, w))
      else
        bindR (Some (check_uid_comprehensive pages uid_field)) (\<lambda>original.
        let (was_converted, p1, w1) =
              (if needs_conversion
               then (case convert_nfc_to_v4 w filepath of
                       ((success, message, conv), w') \<Rightarrow>
                         if success \<and> conv
                         then (True, extract_pages_from_nfc w' filepath, w')
                         else (False, p, w'))
               else (False, p, w))
        in
        bindR (Some (check_uid_comprehensive (parsed_pages p1) (parsed_uid_field p1))) (\<lambda>r.
        bindR (if \<not> fst r
               then bindR (fix_nfc_file w1 filepath (sc_flags cfg))
                      (\<lambda>((success, message, issue_types), w2).
                         if success \<and> any_issue issue_types
                         then let p2 = extract_pages_from_nfc w2 filepath in
                              bindR (Some (check_uid_comprehensive (parsed_pages p2)
                                             (parsed_uid_field p2))) (\<lambda>r2.
                                ret (True, r2, w2))
                         else ret (False, r, w2))
               else ret (False, r, w1)) (\<lambda>(was_fixed, r3, w3).
          ret (make_info filepath NFC (parsed_version p1) False was_fixed was_converted r3, w3)))))"

text \<open>The loop body for a \<^verbatim>\<open>.bin\<close> file (lines 833 to 893).\<close>

definition scan_bin :: "scan_config \<Rightarrow> world \<Rightarrow> path \<Rightarrow> (file_info \<times> world) run" where
  "scan_bin cfg w filepath =
     (let pages = map_option fst (extract_pages_from_bin w filepath) in
      bindR (Some (check_uid_comprehensive pages None)) (\<lambda>r.
        if sc_dry_run cfg
        then ret (make_info filepath BIN None False False False r, w)
        else if \<not> fst r
        then bindR (fix_bin_file w filepath (sc_flags cfg))
               (\<lambda>((success, message, issue_types), w2).
                  if success \<and> any_issue issue_types
                  then let pages_new = map_option fst (extract_pages_from_bin w2 filepath) in
                       bindR (Some (check_uid_comprehensive pages_new None)) (\<lambda>r2.
                         ret (make_info filepath BIN None False True False r2, w2))
                  else ret (make_info filepath BIN None False False False r, w2))
        else ret (make_info filepath BIN None False False False r, w)))"

text \<open>
  The two nested \<^verbatim>\<open>for\<close> loops over the files that \<^verbatim>\<open>rglob\<close> yields outside the backup
  folders, in the order in which they are yielded. An exception of a loop body leaves
  the loops and the function: the files after it are not processed. The sorting and
  printing of the report after the loops are not part of the model.
\<close>

fun scan_files :: "scan_config \<Rightarrow> world \<Rightarrow> (path \<times> file_type) list \<Rightarrow> file_info list
    \<Rightarrow> (file_info list \<times> world) run" where
  "scan_files cfg w [] all_files = ret (all_files, w)"
| "scan_files cfg w ((filepath, ft) # rest) all_files =
     bindR (case ft of NFC \<Rightarrow> scan_nfc cfg w filepath | BIN \<Rightarrow> scan_bin cfg w filepath)
       (\<lambda>(info, w'). scan_files cfg w' rest (all_files @ [info]))"

definition scan_and_fix_directory :: "scan_config \<Rightarrow> world \<Rightarrow> (path \<times> file_type) list
    \<Rightarrow> (file_info list \<times> world) run" where
  "scan_and_fix_directory cfg w found = scan_files cfg (w\<lparr>backup_tracker := {}\<rparr>) found []"

section \<open>Notions used to state the properties\<close>

text \<open>
  The lines that the rewriting loop of \<^verbatim>\<open>fix_nfc_file\<close> can replace under the given
  flags: the conditions of its branches, read off the source.
\<close>

definition rewritable :: "fix_flags \<Rightarrow> string \<Rightarrow> bool" where
  "rewritable flags line =
     ((uid_match line \<noteq> None \<and> fix_uid flags)
      \<or> (case page_match line of
            None \<Rightarrow> False
          | Some (ds, g) \<Rightarrow>
              let n = dec_value ds in
              (n = 0 \<and> (fix_uid flags \<or> fix_bcc flags)) \<or> (n = 1 \<and> fix_uid flags)
              \<or> (n = 2 \<and> fix_bcc flags) \<or> (n = 130 \<and> fix_dlb flags)
              \<or> (n = 131 \<and> fix_cfg flags) \<or> (n = 132 \<and> fix_cfg flags)
              \<or> (n = 133 \<and> fix_password flags) \<or> (n = 134 \<and> fix_pack flags)))"

text \<open>
  The specification's wording, for comparison: the lines whose page number, or the UID
  line, was scheduled for change by the repair plan. \<open>issues\<close> is the plan's
  \<^verbatim>\<open>issue_types\<close>. Page 0 holds BCC0, page 1 holds SN3, page 2 holds BCC1; the UID line
  changes with the UID declaration and with SN3.
\<close>

definition scheduled_line :: "problem_details \<Rightarrow> string \<Rightarrow> bool" where
  "scheduled_line issues line =
     ((uid_match line \<noteq> None \<and> (pd_uid_field issues \<or> pd_sn3 issues))
      \<or> (case page_match line of
            None \<Rightarrow> False
          | Some (ds, g) \<Rightarrow>
              let n = dec_value ds in
              (n = 0 \<and> pd_bcc0 issues) \<or> (n = 1 \<and> pd_sn3 issues)
              \<or> (n = 2 \<and> pd_bcc1 issues) \<or> (n = 130 \<and> pd_dlb issues)
              \<or> (n = 131 \<and> pd_cfg0 issues) \<or> (n = 132 \<and> pd_cfg1 issues)
              \<or> (n = 133 \<and> pd_password issues) \<or> (n = 134 \<and> pd_pack issues)))"

text \<open>A string without a line break.\<close>

definition no_newline :: "string \<Rightarrow> bool" where
  "no_newline s = (CHR 0x0A \<notin> set s)"

text \<open>
  A world for concrete runs: the given text and binary files, every write and copy
  succeeds, nothing is backed up yet, and the random source yields the same byte \<open>r\<close>
  at every draw.
\<close>

definition simple_world :: "(path \<times> string) list \<Rightarrow> (path \<times> u8 list) list \<Rightarrow> u8 \<Rightarrow> world" where
  "simple_world texts bins r =
     \<lparr>text_of = map_of texts, bytes_of = map_of bins, write_ok = (\<lambda>p. True),
      copy_ok = (\<lambda>p. True), backup_tracker = {}, backups = [],
      rand = (\<lambda>i. r), rand_pos = 0\<rparr>"

text \<open>
  What a run leaves to be seen: its result with the text, or the bytes, of one file, the
  files backed up and the number of random draws.
\<close>

definition observe_text :: "path \<Rightarrow> ('a \<times> world) run
    \<Rightarrow> ('a \<times> string option \<times> path list \<times> nat) run" where
  "observe_text p r =
     map_option (map_sum id (\<lambda>(x, w). (x, text_of w p, backups w, rand_pos w))) r"

definition observe_bytes :: "path \<Rightarrow> ('a \<times> world) run
    \<Rightarrow> ('a \<times> u8 list option \<times> path list \<times> nat) run" where
  "observe_bytes p r =
     map_option (map_sum id (\<lambda>(x, w). (x, bytes_of w p, backups w, rand_pos w))) r"

text \<open>The paths of the records of a batch, or the exception that ended it.\<close>

definition scanned_paths :: "(file_info list \<times> world) run \<Rightarrow> path list run" where
  "scanned_paths r = map_option (map_sum id (\<lambda>(infos, w). map fi_path infos)) r"

definition all_flags :: fix_flags where
  "all_flags = \<lparr>fix_uid = True, fix_bcc = True, fix_password = True, fix_pack = True,
                 fix_dlb = True, fix_cfg = True\<rparr>"

text \<open>The entries of \<^verbatim>\<open>changes_made\<close> that a run of the planner leaves.\<close>

definition planned_changes :: "(repair_plan \<times> world) run \<Rightarrow> change list run" where
  "planned_changes r = map_option (map_sum id (\<lambda>(plan, w). rp_changes plan)) r"

text \<open>
  The byte offsets of a binary image that the repair can write: 0 to 8 (pages 0 and 1
  and the first byte of page 2) and 520 to 539 (pages 130 to 134).
\<close>

definition tracked_offset :: "nat \<Rightarrow> bool" where
  "tracked_offset i = (i \<le> 8 \<or> (520 \<le> i \<and> i \<le> 539))"

text \<open>Two buffers of the same length that agree at every offset that is not tracked.\<close>

definition same_untracked :: "u8 list \<Rightarrow> u8 list \<Rightarrow> bool" where
  "same_untracked d d' =
     (length d' = length d \<and> (\<forall>i < length d. \<not> tracked_offset i \<longrightarrow> d' ! i = d ! i))"

text \<open>
  A binary image, as bytes, in which every tracked field has the value derived from the
  UID in pages 0 and 1: the condition under which the planner has nothing to schedule.
\<close>

definition valid_bin_image :: "u8 list \<Rightarrow> bool" where
  "valid_bin_image d =
     (let uid = take 3 d @ take 4 (drop 4 d) in
      uid ! 3 \<noteq> 0x88
      \<and> d ! 3 = 0x88 XOR uid ! 0 XOR uid ! 1 XOR uid ! 2
      \<and> d ! 8 = uid ! 3 XOR uid ! 4 XOR uid ! 5 XOR uid ! 6
      \<and> Some (take 4 (drop 532 d)) = calculate_password_from_uid uid
      \<and> take 4 (drop 536 d) = [0x80, 0x80, 0x00, 0x00]
      \<and> take 4 (drop 520 d) = [0x01, 0x00, 0x0F, 0xBF]
      \<and> take 4 (drop 524 d) = [0x00, 0x00, 0x00, 0x04]
      \<and> take 4 (drop 528 d) = [0x5F, 0x00, 0x00, 0x00])"

definition all_true :: problem_details where
  "all_true = \<lparr>pd_uid_field = True, pd_sn3 = True, pd_bcc0 = True, pd_bcc1 = True,
     pd_password = True, pd_pack = True, pd_dlb = True, pd_cfg0 = True, pd_cfg1 = True\<rparr>"

section \<open>Properties of the field derivation\<close>

lemma bindE_Inr_iff: "bindE m f = Inr y \<longleftrightarrow> (\<exists>x. m = Inr x \<and> f x = Inr y)"
  by (cases m) (simp_all add: bindE_def)

text \<open>
  Claim C9. For a byte sequence of length at least 7 the password derivation returns
  exactly the four bytes SN1 xor SN3 xor 0xAA, SN2 xor SN4 xor 0x55, SN3 xor SN5 xor 0xAA
  and SN4 xor SN6 xor 0x55, as a function of its argument alone. For a shorter
  sequence it returns \<open>None\<close>: a value, not an exception.
\<close>

theorem calculate_password_from_uid_spec:
  "(7 \<le> length uid \<longrightarrow>
      calculate_password_from_uid uid =
        Some [uid ! 1 XOR uid ! 3 XOR 0xAA, uid ! 2 XOR uid ! 4 XOR 0x55,
              uid ! 3 XOR uid ! 5 XOR 0xAA, uid ! 4 XOR uid ! 6 XOR 0x55])
   \<and> (length uid < 7 \<longrightarrow> calculate_password_from_uid uid = None)"
  by (simp add: calculate_password_from_uid_def Let_def)

theorem calculate_password_from_uid_spec_witness:
  "calculate_password_from_uid [0x04, 0xAB, 0x73, 0x54, 0xB8, 0xB6, 0x0F]
     = Some [0x55, 0x9E, 0x48, 0xE2]
   \<and> calculate_password_from_uid [0x04, 0xAB, 0x73] = None"
  using calculate_password_from_uid_spec [of "[0x04, 0xAB, 0x73, 0x54, 0xB8, 0xB6, 0x0F]"]
        calculate_password_from_uid_spec [of "[0x04, 0xAB, 0x73]"]
  by simp

section \<open>Properties of the field validator\<close>

lemma validate_dlb_and_cfg_conj:
  "validate_dlb_and_cfg p = Inr (a, b, c, d) \<Longrightarrow> a = (b \<and> c \<and> d)"
  by (auto simp: validate_dlb_and_cfg_def bindE_Inr_iff Let_def split: option.splits if_splits)

lemma check_uid_comprehensive_early:
  "pages = [] \<or> \<not> has_page pages 0 \<or> \<not> has_page pages 1 \<Longrightarrow>
   check_uid_comprehensive (Some pages) uf = Inr (False, Missing_required_pages, [], all_false)"
  by (simp add: check_uid_comprehensive_def)

lemma check_uid_comprehensive_Inr_pages:
  assumes "check_uid_comprehensive (Some pages) uf = Inr r"
    and "\<not> (pages = [] \<or> \<not> has_page pages 0 \<or> \<not> has_page pages 1)"
  obtains page0 page1 where "page_bytes pages 0 = Inr page0" "page_bytes pages 1 = Inr page1"
  using assms by (auto simp: check_uid_comprehensive_def bindE_Inr_iff)

lemma check_uid_comprehensive_short:
  assumes "\<not> (pages = [] \<or> \<not> has_page pages 0 \<or> \<not> has_page pages 1)"
    and "page_bytes pages 0 = Inr page0" "page_bytes pages 1 = Inr page1"
    and "length (take 3 page0 @ take 4 page1) < 7"
  shows "check_uid_comprehensive (Some pages) uf = Inr (False, Invalid_UID_length, [], all_false)"
  using assms by (simp add: check_uid_comprehensive_def bindE_def Let_def)

lemma check_uid_comprehensive_main:
  assumes "\<not> (pages = [] \<or> \<not> has_page pages 0 \<or> \<not> has_page pages 1)"
    and "page_bytes pages 0 = Inr page0" "page_bytes pages 1 = Inr page1"
    and "\<not> length (take 3 page0 @ take 4 page1) < 7"
    and "uid = take 3 page0 @ take 4 page1"
  shows "check_uid_comprehensive (Some pages) uf =
    bindE (check_bcc1 pages (uid ! 3 XOR uid ! 4 XOR uid ! 5 XOR uid ! 6)) (\<lambda>bcc1.
    bindE (check_password_pack pages uid) (\<lambda>pp.
    bindE (validate_dlb_and_cfg (Some pages)) (\<lambda>v.
      Inr (uid ! 3 \<noteq> 0x88
             \<and> (length page0 \<ge> 4 \<and> page0 ! 3 = 0x88 XOR uid ! 0 XOR uid ! 1 XOR uid ! 2)
             \<and> bcc1 \<and> fst pp \<and> snd pp \<and> fst v,
          Field_report, hex_spaced uid,
          \<lparr>pd_uid_field = uid_field_matches_pages uf uid,
           pd_sn3 = (uid ! 3 \<noteq> 0x88),
           pd_bcc0 = (length page0 \<ge> 4 \<and> page0 ! 3 = 0x88 XOR uid ! 0 XOR uid ! 1 XOR uid ! 2),
           pd_bcc1 = bcc1, pd_password = fst pp, pd_pack = snd pp,
           pd_dlb = fst (snd v), pd_cfg0 = fst (snd (snd v)), pd_cfg1 = snd (snd (snd v))\<rparr>))))"
  using assms
  by (simp add: check_uid_comprehensive_def bindE_def Let_def case_prod_beta
        cong: sum.case_cong)

text \<open>
  Claim C1. Whenever the validator returns a diagnosis, its overall result is the
  conjunction of exactly the eight booleans for SN3, BCC0, BCC1, password, PACK, DLB,
  CFG0 and CFG1. The boolean for the UID declaration is reported and does not affect
  the overall result: with any other UID declaration the validator returns the same
  overall result and the same diagnosis apart from that one boolean.
\<close>

theorem all_valid_is_conjunction:
  assumes "check_uid_comprehensive pages_opt uid_field = Inr (all_valid, st, uid_hex, d)"
  shows "all_valid = (pd_sn3 d \<and> pd_bcc0 d \<and> pd_bcc1 d \<and> pd_password d \<and> pd_pack d
                      \<and> pd_dlb d \<and> pd_cfg0 d \<and> pd_cfg1 d)
         \<and> (\<forall>uid_field'. \<exists>b. check_uid_comprehensive pages_opt uid_field'
                  = Inr (all_valid, st, uid_hex, d\<lparr>pd_uid_field := b\<rparr>))"
proof (cases pages_opt)
  case None
  with assms show ?thesis
    by (auto simp: check_uid_comprehensive_def all_false_def)
next
  case (Some pages)
  note assm = assms [unfolded Some]
  show ?thesis
  proof (cases "pages = [] \<or> \<not> has_page pages 0 \<or> \<not> has_page pages 1")
    case True
    from check_uid_comprehensive_early [OF True] assm show ?thesis
      unfolding Some by (auto simp: all_false_def)
  next
    case False
    from check_uid_comprehensive_Inr_pages [OF assm False]
    obtain page0 page1 where p: "page_bytes pages 0 = Inr page0" "page_bytes pages 1 = Inr page1"
      by blast
    show ?thesis
    proof (cases "length (take 3 page0 @ take 4 page1) < 7")
      case True
      from check_uid_comprehensive_short [OF False p True] assm show ?thesis
        unfolding Some by (auto simp: all_false_def)
    next
      case long: False
      define uid where "uid = take 3 page0 @ take 4 page1"
      note main = check_uid_comprehensive_main [OF False p long uid_def]
      have vconj: "fst v = (fst (snd v) \<and> fst (snd (snd v)) \<and> snd (snd (snd v)))"
        if "validate_dlb_and_cfg (Some pages) = Inr v" for v
        using that by (cases v) (auto dest: validate_dlb_and_cfg_conj)
      have conj: "all_valid = (pd_sn3 d \<and> pd_bcc0 d \<and> pd_bcc1 d \<and> pd_password d
          \<and> pd_pack d \<and> pd_dlb d \<and> pd_cfg0 d \<and> pd_cfg1 d)"
        using assm unfolding main bindE_Inr_iff
        by (elim exE conjE) (simp add: vconj, auto)
      have "check_uid_comprehensive (Some pages) uf'
          = Inr (all_valid, st, uid_hex, d\<lparr>pd_uid_field := uid_field_matches_pages uf' uid\<rparr>)" for uf'
        using assm unfolding main check_uid_comprehensive_main [OF False p long uid_def, of uf']
        by (auto simp: bindE_def split: sum.splits)
      then have "\<forall>uf'. \<exists>b. check_uid_comprehensive (Some pages) uf'
          = Inr (all_valid, st, uid_hex, d\<lparr>pd_uid_field := b\<rparr>)"
        by blast
      with conj show ?thesis unfolding Some by blast
    qed
  qed
qed

theorem all_valid_is_conjunction_witness:
  "check_uid_comprehensive (Some [(0, ''04AB7354''), (1, ''B8B60F80''), (2, ''81480000''),
             (130, ''01000FBF''), (131, ''00000004''), (132, ''5F000000''),
             (133, ''B9901D63''), (134, ''80800000'')]) (Some ''00000000000000'')
     = Inr (True, Field_report, ''04 AB 73 B8 B6 0F 80'',
        \<lparr>pd_uid_field = False, pd_sn3 = True, pd_bcc0 = True, pd_bcc1 = True,
         pd_password = True, pd_pack = True, pd_dlb = True, pd_cfg0 = True, pd_cfg1 = True\<rparr>)
   \<and> (\<exists>b. check_uid_comprehensive (Some [(0, ''04AB7354''), (1, ''B8B60F80''), (2, ''81480000''),
             (130, ''01000FBF''), (131, ''00000004''), (132, ''5F000000''),
             (133, ''B9901D63''), (134, ''80800000'')]) None
     = Inr (True, Field_report, ''04 AB 73 B8 B6 0F 80'',
        \<lparr>pd_uid_field = b, pd_sn3 = True, pd_bcc0 = True, pd_bcc1 = True,
         pd_password = True, pd_pack = True, pd_dlb = True, pd_cfg0 = True, pd_cfg1 = True\<rparr>))"
proof -
  have h: "check_uid_comprehensive (Some [(0, ''04AB7354''), (1, ''B8B60F80''), (2, ''81480000''),
             (130, ''01000FBF''), (131, ''00000004''), (132, ''5F000000''),
             (133, ''B9901D63''), (134, ''80800000'')]) (Some ''00000000000000'')
     = Inr (True, Field_report, ''04 AB 73 B8 B6 0F 80'',
        \<lparr>pd_uid_field = False, pd_sn3 = True, pd_bcc0 = True, pd_bcc1 = True,
         pd_password = True, pd_pack = True, pd_dlb = True, pd_cfg0 = True, pd_cfg1 = True\<rparr>)"
    by code_simp
  from all_valid_is_conjunction [OF h] h show ?thesis by simp
qed


lemma page_bytes_has_page: "page_bytes pages n = Inr b \<Longrightarrow> has_page pages n \<and> pages \<noteq> []"
  by (auto simp: page_bytes_def has_page_def split: option.splits)

lemma check_bcc1_Inr:
  "check_bcc1 pages e = Inr b \<Longrightarrow>
   b = (\<exists>page2. page_bytes pages 2 = Inr page2 \<and> length page2 \<ge> 1 \<and> page2 ! 0 = e)"
  by (auto simp: check_bcc1_def bindE_Inr_iff page_bytes_def has_page_def
           split: if_splits option.splits)

text \<open>
  Claim C8. For a 7-byte UID read from pages 0 and 1, the validator reports BCC0 as
  valid exactly when byte 3 of page 0 is 0x88 xor SN0 xor SN1 xor SN2, and BCC1 as valid
  exactly when byte 0 of page 2 is SN3 xor SN4 xor SN5 xor SN6; without page 2, BCC1 is
  reported invalid.
\<close>

theorem bcc_checks:
  assumes "check_uid_comprehensive (Some pages) uid_field = Inr (all_valid, st, uid_hex, d)"
    and "page_bytes pages 0 = Inr page0" and "page_bytes pages 1 = Inr page1"
    and "uid = take 3 page0 @ take 4 page1" and "length uid = 7"
  shows "(pd_bcc0 d \<longleftrightarrow> length page0 \<ge> 4 \<and> page0 ! 3 = 0x88 XOR uid ! 0 XOR uid ! 1 XOR uid ! 2)
       \<and> (pd_bcc1 d \<longleftrightarrow> (\<exists>page2. page_bytes pages 2 = Inr page2 \<and> length page2 \<ge> 1
                              \<and> page2 ! 0 = uid ! 3 XOR uid ! 4 XOR uid ! 5 XOR uid ! 6))
       \<and> (\<not> has_page pages 2 \<longrightarrow> \<not> pd_bcc1 d)"
proof -
  from assms(2,3) have here: "\<not> (pages = [] \<or> \<not> has_page pages 0 \<or> \<not> has_page pages 1)"
    by (auto dest: page_bytes_has_page)
  from assms(4,5) have long: "\<not> length (take 3 page0 @ take 4 page1) < 7"
    by simp
  note main = check_uid_comprehensive_main [OF here assms(2,3) long assms(4)]
  from assms(1) [unfolded main bindE_Inr_iff]
  obtain b where b: "check_bcc1 pages (uid ! 3 XOR uid ! 4 XOR uid ! 5 XOR uid ! 6) = Inr b"
    and d: "pd_bcc1 d = b"
      "pd_bcc0 d = (length page0 \<ge> 4 \<and> page0 ! 3 = 0x88 XOR uid ! 0 XOR uid ! 1 XOR uid ! 2)"
    by (elim exE conjE) auto
  from check_bcc1_Inr [OF b] d have 2: "pd_bcc1 d \<longleftrightarrow> (\<exists>page2. page_bytes pages 2 = Inr page2
      \<and> length page2 \<ge> 1 \<and> page2 ! 0 = uid ! 3 XOR uid ! 4 XOR uid ! 5 XOR uid ! 6)"
    by simp
  have 3: "\<not> has_page pages 2 \<longrightarrow> \<not> pd_bcc1 d"
    unfolding 2 by (auto dest: page_bytes_has_page)
  from d(2) 2 3 show ?thesis by blast
qed

theorem bcc_checks_witness:
  "check_uid_comprehensive (Some [(0, ''04AB7354''), (1, ''B8B60F80''), (2, ''81480000'')]) None
     = Inr (False, Field_report, ''04 AB 73 B8 B6 0F 80'',
        \<lparr>pd_uid_field = True, pd_sn3 = True, pd_bcc0 = True, pd_bcc1 = True,
         pd_password = False, pd_pack = False, pd_dlb = False, pd_cfg0 = False, pd_cfg1 = False\<rparr>)
   \<and> (0x54 :: u8) = 0x88 XOR 0x04 XOR 0xAB XOR 0x73
   \<and> (\<exists>page2. page_bytes [(0, ''04AB7354''), (1, ''B8B60F80''), (2, ''81480000'')] 2 = Inr page2
         \<and> length page2 \<ge> 1 \<and> page2 ! 0 = 0xB8 XOR 0xB6 XOR 0x0F XOR 0x80)"
proof -
  have h: "check_uid_comprehensive (Some [(0, ''04AB7354''), (1, ''B8B60F80''), (2, ''81480000'')]) None
     = Inr (False, Field_report, ''04 AB 73 B8 B6 0F 80'',
        \<lparr>pd_uid_field = True, pd_sn3 = True, pd_bcc0 = True, pd_bcc1 = True,
         pd_password = False, pd_pack = False, pd_dlb = False, pd_cfg0 = False, pd_cfg1 = False\<rparr>)"
    by code_simp
  have p0: "page_bytes [(0, ''04AB7354''), (1, ''B8B60F80''), (2, ''81480000'')] 0 = Inr [0x04, 0xAB, 0x73, 0x54]"
    by code_simp
  have p1: "page_bytes [(0, ''04AB7354''), (1, ''B8B60F80''), (2, ''81480000'')] 1 = Inr [0xB8, 0xB6, 0x0F, 0x80]"
    by code_simp
  from bcc_checks [OF h p0 p1, of "[0x04, 0xAB, 0x73, 0xB8, 0xB6, 0x0F, 0x80]"] h
  show ?thesis by simp
qed

section \<open>Properties of the batch\<close>

lemma scanned_paths_error: "scanned_paths r = Some (Inl e) \<Longrightarrow> r = Some (Inl e)"
  by (cases r) (auto simp: scanned_paths_def map_sum_def split: sum.splits)

text \<open>
  Claim C4. The claim is that an error in one file becomes that file's status record
  and never ends the batch. In a dry run over two text files, the first with the line
  \<^verbatim>\<open>Page 0: 0\<close> (one hexadecimal digit), the validator's \<^verbatim>\<open>bytes.fromhex\<close> raises
  \<^verbatim>\<open>ValueError\<close> outside every \<^verbatim>\<open>try\<close>: the batch ends with the exception and gives no
  record for either file, although the second file alone is processed to a record.
\<close>

theorem scan_and_fix_directory_aborts:
  "scan_and_fix_directory
     \<lparr>sc_flags = all_flags, sc_convert_to_v4 = False, sc_dry_run = True\<rparr>
     (simple_world [(''a.nfc'', ''Page 0: 0\<newline>Page 1: 00 00 00 00''),
                    (''b.nfc'', ''Page 0: 04 AB 73 54\<newline>Page 1: B8 B6 0F 80'')] [] 0x42)
     [(''a.nfc'', NFC), (''b.nfc'', NFC)]
   = Some (Inl ValueError)
   \<and> scanned_paths
       (scan_and_fix_directory
         \<lparr>sc_flags = all_flags, sc_convert_to_v4 = False, sc_dry_run = True\<rparr>
         (simple_world [(''a.nfc'', ''Page 0: 0\<newline>Page 1: 00 00 00 00''),
                        (''b.nfc'', ''Page 0: 04 AB 73 54\<newline>Page 1: B8 B6 0F 80'')] [] 0x42)
         [(''b.nfc'', NFC)])
     = Some (Inr [''b.nfc''])"
  by (rule conjI, rule scanned_paths_error) code_simp+

section \<open>Properties of the version upgrader\<close>








section \<open>Properties of the text encoder\<close>

lemma split_lines_nonempty: "split_lines s \<noteq> []"
  by (induction s) (auto split: list.splits)

lemma split_lines_no_newline: "l \<in> set (split_lines s) \<Longrightarrow> no_newline l"
  by (induction s arbitrary: l) (auto simp: no_newline_def split: if_splits list.splits)

lemma split_lines_cons_no_newline:
  "no_newline l \<Longrightarrow> split_lines (l @ CHR 0x0A # s) = l # split_lines s"
  by (induction l) (auto simp: no_newline_def)

lemma split_lines_single: "no_newline l \<Longrightarrow> split_lines l = [l]"
  by (induction l) (auto simp: no_newline_def)

lemma split_join_lines:
  "ls \<noteq> [] \<Longrightarrow> \<forall>l \<in> set ls. no_newline l \<Longrightarrow> split_lines (join_lines ls) = ls"
  unfolding join_lines_def
proof (induction "[CHR 0x0A]" ls rule: join.induct)
  case (2 x)
  then show ?case by (simp add: split_lines_single)
next
  case (3 x y ys)
  then show ?case by (simp add: split_lines_cons_no_newline)
qed simp

lemma mapE_Inr:
  "mapE f xs = Inr ys \<Longrightarrow> length ys = length xs \<and> (\<forall>i < length xs. f (xs ! i) = Inr (ys ! i))"
proof (induction xs arbitrary: ys)
  case Nil
  then show ?case by simp
next
  case (Cons x xs)
  then obtain y ys' where "f x = Inr y" "mapE f xs = Inr ys'" "ys = y # ys'"
    by (auto simp: bindE_Inr_iff)
  with Cons.IH [of ys'] show ?case
    by (auto simp: nth_Cons split: nat.splits)
qed

lemma bindR_Inr_iff:
  "bindR m f = Some (Inr y) \<longleftrightarrow> (\<exists>x. m = Some (Inr x) \<and> f x = Some (Inr y))"
  by (auto simp: bindR_def split: option.splits sum.splits)

lemma hexdigit_not_newline: "n < 16 \<Longrightarrow> hexdigit n \<noteq> CHR 0x0A"
  by (simp add: hexdigit_def nth_Cons')

lemma unat_u8_nibbles: "unat (b :: u8) div 16 < 16" "unat b mod 16 < 16"
  using unsigned_less [of b, where 'a = nat] by simp_all

lemma no_newline_hex2: "no_newline (hex2 b)"
  by (simp add: no_newline_def hex2_def hexdigit_not_newline [THEN not_sym] unat_u8_nibbles)

lemma no_newline_append: "no_newline (a @ b) \<longleftrightarrow> no_newline a \<and> no_newline b"
  by (auto simp: no_newline_def)

lemma no_newline_join_space:
  "\<forall>x \<in> set xs. no_newline x \<Longrightarrow> no_newline (join '' '' xs)"
  by (induction "'' ''" xs rule: join.induct) (auto simp: no_newline_def)

lemma no_newline_hex_spaced: "no_newline (hex_spaced bs)"
  unfolding hex_spaced_def by (rule no_newline_join_space) (simp add: no_newline_hex2)

lemma no_newline_page_line: "no_newline prefix \<Longrightarrow> no_newline (page_line prefix bs)"
  by (simp add: page_line_def no_newline_append no_newline_hex_spaced)

lemma py_int_Inr: "py_int ds = Inr n \<Longrightarrow> n = dec_value ds"
  by (simp add: py_int_def split: if_splits)

lemma rewrite_line_page:
  assumes "\<not> (uid_match line \<noteq> None \<and> fix_uid flags)"
    and "page_match line = Some (ds, g)" and "py_int ds = Inr n"
  shows "rewrite_line flags pages plan line =
    (if n = 0 \<and> (fix_uid flags \<or> fix_bcc flags)
     then Inr (page_line ''Page 0: '' (take 3 (rp_uid plan) @ [rp_bcc0 plan]))
     else if n = 1 \<and> fix_uid flags
     then Inr (page_line ''Page 1: '' (take 4 (drop 3 (rp_uid plan))))
     else if n = 2 \<and> fix_bcc flags
     then bindE (page_bytes pages 2) (\<lambda>page2_bytes.
            if length page2_bytes < 4 then Inl IndexError
            else Inr (page_line ''Page 2: ''
                   [rp_bcc1 plan, page2_bytes ! 1, page2_bytes ! 2, page2_bytes ! 3]))
     else if n = 130 \<and> fix_dlb flags
     then Inr (page_line ''Page 130: '' [0x01, 0x00, 0x0F, 0xBF])
     else if n = 131 \<and> fix_cfg flags
     then Inr (page_line ''Page 131: '' [0x00, 0x00, 0x00, 0x04])
     else if n = 132 \<and> fix_cfg flags
     then Inr (page_line ''Page 132: '' [0x5F, 0x00, 0x00, 0x00])
     else if n = 133 \<and> fix_password flags
     then Inr (page_line ''Page 133: '' (take 4 (rp_password plan)))
     else if n = 134 \<and> fix_pack flags
     then Inr (page_line ''Page 134: '' [0x80, 0x80, 0x00, 0x00])
     else Inr line)"
  unfolding rewrite_line_def if_not_P [OF assms(1)]
  by (simp add: assms(2,3) bindE_def)

lemma rewrite_line_frame:
  assumes "rewrite_line flags pages plan line = Inr l" and "\<not> rewritable flags line"
  shows "l = line"
proof -
  from assms(2) have nouid: "\<not> (uid_match line \<noteq> None \<and> fix_uid flags)"
    by (simp add: rewritable_def)
  show ?thesis
  proof (cases "page_match line")
    case None
    with assms(1) show ?thesis
      unfolding rewrite_line_def if_not_P [OF nouid] by simp
  next
    case (Some m)
    obtain ds g where m: "page_match line = Some (ds, g)"
      using Some by (cases m) simp
    from assms(1) m obtain n where n: "py_int ds = Inr n"
      unfolding rewrite_line_def if_not_P [OF nouid] by (auto simp: bindE_Inr_iff)
    then have nv: "dec_value ds = n" using py_int_Inr by blast
    from assms(2) m nv have
      "\<not> (n = 0 \<and> (fix_uid flags \<or> fix_bcc flags))" "\<not> (n = 1 \<and> fix_uid flags)"
      "\<not> (n = 2 \<and> fix_bcc flags)" "\<not> (n = 130 \<and> fix_dlb flags)"
      "\<not> (n = 131 \<and> fix_cfg flags)" "\<not> (n = 132 \<and> fix_cfg flags)"
      "\<not> (n = 133 \<and> fix_password flags)" "\<not> (n = 134 \<and> fix_pack flags)"
      by (simp_all add: rewritable_def Let_def)
    then have "rewrite_line flags pages plan line = Inr line"
      unfolding rewrite_line_page [OF nouid m n] by (simp only: if_False)
    with assms(1) show ?thesis by simp
  qed
qed

lemma rewrite_line_no_newline:
  assumes "rewrite_line flags pages plan line = Inr l" and "no_newline line"
  shows "no_newline l"
proof (cases "uid_match line \<noteq> None \<and> fix_uid flags")
  case True
  with assms(1) have "l = page_line ''UID: '' (take 7 (rp_uid plan))"
    by (simp add: rewrite_line_def)
  moreover have "no_newline ''UID: ''"
    by (simp add: no_newline_def)
  ultimately show ?thesis
    by (simp add: no_newline_page_line)
next
  case nouid: False
  show ?thesis
  proof (cases "page_match line")
    case None
    with assms show ?thesis
      unfolding rewrite_line_def if_not_P [OF nouid] by simp
  next
    case (Some m)
    obtain ds g where m: "page_match line = Some (ds, g)"
      using Some by (cases m) simp
    from assms(1) m obtain n where n: "py_int ds = Inr n"
      unfolding rewrite_line_def if_not_P [OF nouid] by (auto simp: bindE_Inr_iff)
    have pre: "no_newline ''Page 0: ''" "no_newline ''Page 1: ''"
      "no_newline ''Page 2: ''" "no_newline ''Page 130: ''" "no_newline ''Page 131: ''"
      "no_newline ''Page 132: ''" "no_newline ''Page 133: ''" "no_newline ''Page 134: ''"
      by (simp_all add: no_newline_def)
    from assms(1) [unfolded rewrite_line_page [OF nouid m n]] assms(2)
    show ?thesis
      by (auto simp: bindE_Inr_iff no_newline_page_line pre split: if_splits)
  qed
qed

lemma repair_planner_world:
  assumes "repair_planner strict w flags pages uf = Some (Inr (plan, w1))"
  shows "\<exists>pos. w1 = w\<lparr>rand_pos := pos\<rparr>"
  using assms unfolding repair_planner_def
  by (auto simp: bindR_Inr_iff ret_def Let_def split: prod.splits)

lemma backup_file_world:
  assumes "backup_file w p = (bp, w2)"
  shows "text_of w2 = text_of w \<and> bytes_of w2 = bytes_of w \<and> write_ok w2 = write_ok w
         \<and> rand w2 = rand w \<and> rand_pos w2 = rand_pos w"
  using assms by (auto simp: backup_file_def Let_def split: if_splits)

lemma parse_nfc_lines: "parse_nfc content = Inr p \<Longrightarrow> np_lines p = split_lines content"
  by (auto simp: parse_nfc_def bindE_Inr_iff Let_def split: prod.splits)

lemma fix_nfc_file_fixed:
  assumes "fix_nfc_file w filepath flags = Some (Inr ((s, Fixed_successfully b cs, iss), w'))"
  obtains content p plan w1 w2 new_lines where
    "text_of w filepath = Some content" "parse_nfc content = Inr p"
    "repair_planner False w flags (np_pages p) (np_uid_field p) = Some (Inr (plan, w1))"
    "backup_file w1 filepath = (b, w2)"
    "mapE (rewrite_line flags (np_pages p) plan) (np_lines p) = Inr new_lines"
    "w' = w2\<lparr>text_of := (text_of w2)(filepath \<mapsto> join_lines new_lines)\<rparr>"
proof -
  from assms obtain p where p: "extract_pages_from_nfc w filepath = Some p"
    by (cases "extract_pages_from_nfc w filepath") (simp_all add: fix_nfc_file_def ret_def)
  then obtain content where c: "text_of w filepath = Some content" "parse_nfc content = Inr p"
    by (auto simp: extract_pages_from_nfc_def split: option.splits sum.splits)
  from assms p obtain plan w1 where
    pl: "repair_planner False w flags (np_pages p) (np_uid_field p) = Some (Inr (plan, w1))"
    and rest: "(if rp_changes plan = [] then ret ((True, No_changes_needed, None), w1)
         else
           let (backup_path, w2) = backup_file w1 filepath in
           bindR (Some (mapE (rewrite_line flags (np_pages p) plan) (np_lines p))) (\<lambda>new_lines.
             if write_ok w2 filepath
             then ret ((True, Fixed_successfully backup_path (rp_changes plan),
                        Some (rp_issues plan)),
                       w2\<lparr>text_of := (text_of w2)(filepath \<mapsto> join_lines new_lines)\<rparr>)
             else ret ((False, Error_writing_file, None), w2)))
        = Some (Inr ((s, Fixed_successfully b cs, iss), w'))"
    by (auto simp: fix_nfc_file_def ret_def Let_def bindR_Inr_iff split: if_splits)
  obtain bp w2 where bk: "backup_file w1 filepath = (bp, w2)"
    by (cases "backup_file w1 filepath")
  from rest bk obtain new_lines where
    "mapE (rewrite_line flags (np_pages p) plan) (np_lines p) = Inr new_lines"
    "bp = b" "w' = w2\<lparr>text_of := (text_of w2)(filepath \<mapsto> join_lines new_lines)\<rparr>"
    by (auto simp: ret_def bindR_Inr_iff split: if_splits)
  with c pl bk that show ?thesis by blast
qed


text \<open>
  Claim C3, amended. When the text repair rewrites the file, the new text has as many
  lines as the old one, in the same order. Every line that the flags do not make
  rewritable is unchanged, character for character: a line is rewritable when it
  matches the UID pattern and \<^verbatim>\<open>fix_uid\<close> is set, or matches the page pattern with a
  tracked page number whose flag is set. No other file changes.
\<close>

theorem fix_nfc_file_frame:
  assumes "fix_nfc_file w filepath flags = Some (Inr ((s, Fixed_successfully b cs, iss), w'))"
  shows "\<exists>content new_content.
           text_of w filepath = Some content \<and> text_of w' filepath = Some new_content
           \<and> length (split_lines new_content) = length (split_lines content)
           \<and> (\<forall>i < length (split_lines content).
                 \<not> rewritable flags (split_lines content ! i)
                 \<longrightarrow> split_lines new_content ! i = split_lines content ! i)
           \<and> (\<forall>p. p \<noteq> filepath \<longrightarrow> text_of w' p = text_of w p)
           \<and> bytes_of w' = bytes_of w"
proof -
  from fix_nfc_file_fixed [OF assms]
  obtain content p plan w1 w2 new_lines where
    c: "text_of w filepath = Some content" "parse_nfc content = Inr p"
    and pl: "repair_planner False w flags (np_pages p) (np_uid_field p) = Some (Inr (plan, w1))"
    and bk: "backup_file w1 filepath = (b, w2)"
    and m: "mapE (rewrite_line flags (np_pages p) plan) (np_lines p) = Inr new_lines"
    and w': "w' = w2\<lparr>text_of := (text_of w2)(filepath \<mapsto> join_lines new_lines)\<rparr>"
    by blast
  let ?ls = "split_lines content"
  from m parse_nfc_lines [OF c(2)]
  have len: "length new_lines = length ?ls"
    and each: "\<forall>i < length ?ls. rewrite_line flags (np_pages p) plan (?ls ! i) = Inr (new_lines ! i)"
    using mapE_Inr [of "rewrite_line flags (np_pages p) plan" ?ls new_lines] by simp_all
  have nn: "\<forall>l \<in> set new_lines. no_newline l"
  proof
    fix l assume "l \<in> set new_lines"
    then obtain i where i: "i < length new_lines" "l = new_lines ! i"
      by (auto simp: in_set_conv_nth)
    with len each have "rewrite_line flags (np_pages p) plan (?ls ! i) = Inr l"
      by simp
    moreover from i len have "?ls ! i \<in> set ?ls"
      by simp
    then have "no_newline (?ls ! i)"
      by (rule split_lines_no_newline)
    ultimately show "no_newline l"
      by (rule rewrite_line_no_newline)
  qed
  from len have "new_lines \<noteq> []"
    using split_lines_nonempty [of content] by auto
  with nn have sj: "split_lines (join_lines new_lines) = new_lines"
    by (simp add: split_join_lines)
  from repair_planner_world [OF pl] backup_file_world [OF bk]
  have files: "text_of w2 = text_of w" "bytes_of w2 = bytes_of w"
    by auto
  have t: "text_of w' filepath = Some (join_lines new_lines)"
    by (simp add: w')
  have frame: "\<forall>i < length ?ls. \<not> rewritable flags (?ls ! i) \<longrightarrow> new_lines ! i = ?ls ! i"
    using each rewrite_line_frame by blast
  have others: "\<forall>q. q \<noteq> filepath \<longrightarrow> text_of w' q = text_of w q"
    by (simp add: w' files)
  have bytes: "bytes_of w' = bytes_of w"
    by (simp add: w' files)
  from c(1) t sj len frame others bytes show ?thesis
    by (intro exI [of _ content] exI [of _ "join_lines new_lines"]) simp
qed


text \<open>
  Claim C3 as stated fails. In this file only PACK is wrong, so the plan schedules page
  134 alone; the DLB line \<^verbatim>\<open>Page 130: 01 00 0f bf\<close> holds the right bytes in lower case
  and is not scheduled. The repair rewrites it all the same, as
  \<^verbatim>\<open>Page 130: 01 00 0F BF\<close>, because \<^verbatim>\<open>fix_dlb\<close> is set.
\<close>

theorem fix_nfc_file_rewrites_unscheduled_line:
  "observe_text ''a.nfc''
     (fix_nfc_file
        (simple_world [(''a.nfc'', ''# tag\<newline>Page 0: 04 AB 73 54\<newline>Page 1: B8 B6 0F 80\<newline>Page 2: 81 48 00 00\<newline>Page 130: 01 00 0f bf\<newline>Page 134: 00 00 00 00'')] [] 0x42)
        ''a.nfc'' all_flags)
   = Some (Inr ((True, Fixed_successfully (Some ''a.nfc'') [Fixed_PACK],
                 Some \<lparr>pd_uid_field = False, pd_sn3 = False, pd_bcc0 = False,
                        pd_bcc1 = False, pd_password = False, pd_pack = True,
                        pd_dlb = False, pd_cfg0 = False, pd_cfg1 = False\<rparr>),
                Some ''# tag\<newline>Page 0: 04 AB 73 54\<newline>Page 1: B8 B6 0F 80\<newline>Page 2: 81 48 00 00\<newline>Page 130: 01 00 0F BF\<newline>Page 134: 80 80 00 00'',
                [''a.nfc''], 0))
   \<and> \<not> scheduled_line \<lparr>pd_uid_field = False, pd_sn3 = False, pd_bcc0 = False,
                        pd_bcc1 = False, pd_password = False, pd_pack = True,
                        pd_dlb = False, pd_cfg0 = False, pd_cfg1 = False\<rparr>
          ''Page 130: 01 00 0f bf''
   \<and> ''Page 130: 01 00 0F BF'' \<noteq> ''Page 130: 01 00 0f bf''"
  by code_simp

lemma observe_text_Inr:
  "observe_text p r = Some (Inr (x, t, bs, n)) \<Longrightarrow>
   \<exists>w. r = Some (Inr (x, w)) \<and> text_of w p = t \<and> backups w = bs \<and> rand_pos w = n"
  by (cases r) (auto simp: observe_text_def map_sum_def split: sum.splits)

theorem fix_nfc_file_frame_witness:
  "\<exists>w'. fix_nfc_file
        (simple_world [(''a.nfc'', ''# tag\<newline>Page 0: 04 AB 73 54\<newline>Page 134: 00\<newline>Page 1: B8 B6 0F 80\<newline>Page 134: 00 00 00 00'')] [] 0x42)
        ''a.nfc'' all_flags
      = Some (Inr ((True, Fixed_successfully (Some ''a.nfc'') [Fixed_PACK],
                 Some \<lparr>pd_uid_field = False, pd_sn3 = False, pd_bcc0 = False,
                        pd_bcc1 = False, pd_password = False, pd_pack = True,
                        pd_dlb = False, pd_cfg0 = False, pd_cfg1 = False\<rparr>), w'))
    \<and> (\<exists>new_content. text_of w' ''a.nfc'' = Some new_content
          \<and> length (split_lines new_content) = 5
          \<and> split_lines new_content ! 0 = ''# tag'')"
proof -
  let ?c = "''# tag\<newline>Page 0: 04 AB 73 54\<newline>Page 134: 00\<newline>Page 1: B8 B6 0F 80\<newline>Page 134: 00 00 00 00''"
  have "observe_text ''a.nfc'' (fix_nfc_file (simple_world [(''a.nfc'', ?c)] [] 0x42) ''a.nfc'' all_flags)
      = Some (Inr ((True, Fixed_successfully (Some ''a.nfc'') [Fixed_PACK],
                 Some \<lparr>pd_uid_field = False, pd_sn3 = False, pd_bcc0 = False,
                        pd_bcc1 = False, pd_password = False, pd_pack = True,
                        pd_dlb = False, pd_cfg0 = False, pd_cfg1 = False\<rparr>),
                Some ''# tag\<newline>Page 0: 04 AB 73 54\<newline>Page 134: 80 80 00 00\<newline>Page 1: B8 B6 0F 80\<newline>Page 134: 80 80 00 00'',
                [''a.nfc''], 0))"
    by code_simp
  from observe_text_Inr [OF this] obtain w' where
    h: "fix_nfc_file (simple_world [(''a.nfc'', ?c)] [] 0x42) ''a.nfc'' all_flags
      = Some (Inr ((True, Fixed_successfully (Some ''a.nfc'') [Fixed_PACK],
                 Some \<lparr>pd_uid_field = False, pd_sn3 = False, pd_bcc0 = False,
                        pd_bcc1 = False, pd_password = False, pd_pack = True,
                        pd_dlb = False, pd_cfg0 = False, pd_cfg1 = False\<rparr>), w'))"
    by blast
  have t: "text_of (simple_world [(''a.nfc'', ?c)] [] 0x42) ''a.nfc'' = Some ?c"
    by (simp add: simple_world_def)
  have l: "split_lines ?c = [''# tag'', ''Page 0: 04 AB 73 54'', ''Page 134: 00'',
      ''Page 1: B8 B6 0F 80'', ''Page 134: 00 00 00 00'']"
    by code_simp
  have r: "\<not> rewritable all_flags ''# tag''"
    by code_simp
  from fix_nfc_file_frame [OF h] t l r h show ?thesis
    by (intro exI [of _ w']) auto
qed

section \<open>Properties of the SN3 repair\<close>

lemma draw_not_88_found:
  "rnd (i + k) \<noteq> 0x88 \<Longrightarrow> \<exists>b j. draw_not_88 rnd i = Some (b, j) \<and> b \<noteq> 0x88"
proof (induction k arbitrary: i)
  case 0
  then show ?case by (subst draw_not_88.simps) simp
next
  case (Suc k)
  show ?case
  proof (cases "rnd i = 0x88")
    case True
    from Suc.prems have "rnd (Suc i + k) \<noteq> 0x88" by simp
    from Suc.IH [OF this] True show ?thesis
      by (subst draw_not_88.simps) simp
  next
    case False
    then show ?thesis by (subst draw_not_88.simps) simp
  qed
qed

lemma draw_not_88_result:
  assumes "draw_not_88 rnd i = Some y"
  shows "fst y \<noteq> 0x88 \<and> i < snd y \<and> fst y = rnd (snd y - 1)"
proof (rule draw_not_88.raw_induct
    [where P = "\<lambda>rnd i y. fst y \<noteq> 0x88 \<and> i < snd y \<and> fst y = rnd (snd y - 1)", OF _ assms])
  fix draw :: "(nat \<Rightarrow> u8) \<Rightarrow> nat \<Rightarrow> (u8 \<times> nat) option" and rnd i y
  assume ih: "\<And>rnd i y. draw rnd i = Some y \<Longrightarrow>
      fst y \<noteq> 0x88 \<and> i < snd y \<and> fst y = rnd (snd y - 1)"
    and body: "(if rnd i = 0x88 then draw rnd (Suc i) else Some (rnd i, Suc i)) = Some y"
  show "fst y \<noteq> 0x88 \<and> i < snd y \<and> fst y = rnd (snd y - 1)"
  proof (cases "rnd i = 0x88")
    case True
    with body have "draw rnd (Suc i) = Some y" by simp
    from ih [OF this] show ?thesis by auto
  next
    case False
    with body show ?thesis by auto
  qed
qed



section \<open>Properties of the repair planner\<close>

lemma plan_fields_changes:
  assumes "plan_fields strict flags pages page0 uid changes0 issues0 = Inr plan"
  shows "\<exists>rest. rp_changes plan = changes0 @ rest"
proof (cases "length uid \<noteq> 7")
  case True
  with assms show ?thesis by (simp add: plan_fields_def)
next
  case False
  with assms show ?thesis
    unfolding plan_fields_def Let_def bindE_Inr_iff if_not_P [OF False]
    by (elim exE conjE) (auto split del: if_split)
qed

lemma fix_uid_if_sn3_is_88_unfixed:
  "fix_uid_if_sn3_is_88 rnd i uid = Some (uid', False, j) \<Longrightarrow> j = i \<and> uid' = uid"
  by (auto simp: fix_uid_if_sn3_is_88_def split: if_splits option.splits)


lemma repair_planner_no_changes:
  assumes "repair_planner strict w flags pages uf = Some (Inr (plan, w1))"
    and "rp_changes plan = []"
  shows "w1 = w"
proof -
  from assms(1) obtain page0 page1 uid' fixed pos' cs iss where
    f: "(if fix_uid flags
         then map_option Inr (fix_uid_if_sn3_is_88 (rand w) (rand_pos w) (take 3 page0 @ take 4 page1))
         else ret (take 3 page0 @ take 4 page1, False, rand_pos w)) = Some (Inr (uid', fixed, pos'))"
    and p: "plan_fields strict flags pages page0 uid' (cs @ (if fixed then [Fixed_SN3] else [])) iss
        = Inr plan"
    and w1: "w1 = w\<lparr>rand_pos := pos'\<rparr>"
    unfolding repair_planner_def
    by (auto simp: bindR_Inr_iff ret_def Let_def split: prod.splits)
  from plan_fields_changes [OF p] assms(2) have "\<not> fixed"
    by auto
  with f have "pos' = rand_pos w"
    by (auto simp: ret_def dest: fix_uid_if_sn3_is_88_unfixed split: if_splits)
  with w1 show ?thesis by simp
qed

lemma repair_planner_pages:
  assumes "repair_planner strict w flags pages uf = Some (Inr (plan, w1))"
  shows "pages \<noteq> [] \<and> has_page pages 0 \<and> has_page pages 1"
  using assms unfolding repair_planner_def
  by (auto simp: bindR_Inr_iff dest: page_bytes_has_page)


text \<open>
  Claim C6. When the planner, run on the pages of a text or binary image, schedules no
  change, the repair returns success with the message \<^verbatim>\<open>No changes needed\<close> and the
  world is exactly as before: no backup, no write, no random draw, every file as it was.
\<close>

theorem no_changes_needed:
  "(extract_pages_from_nfc w filepath = Some p
      \<and> repair_planner False w flags (np_pages p) (np_uid_field p) = Some (Inr (plan, w1))
      \<and> rp_changes plan = []
    \<longrightarrow> fix_nfc_file w filepath flags = Some (Inr ((True, No_changes_needed, None), w)))
   \<and> (extract_pages_from_bin w filepath = Some (pages, data)
      \<and> repair_planner True w flags pages None = Some (Inr (plan, w1))
      \<and> rp_changes plan = []
    \<longrightarrow> fix_bin_file w filepath flags = Some (Inr ((True, No_changes_needed, None), w)))"
proof (intro conjI impI; elim conjE)
  assume e: "extract_pages_from_nfc w filepath = Some p"
    and pl: "repair_planner False w flags (np_pages p) (np_uid_field p) = Some (Inr (plan, w1))"
    and c: "rp_changes plan = []"
  from repair_planner_no_changes [OF pl c] have "w1 = w" .
  with e pl c repair_planner_pages [OF pl]
  show "fix_nfc_file w filepath flags = Some (Inr ((True, No_changes_needed, None), w))"
    by (simp add: fix_nfc_file_def bindR_def ret_def Let_def)
next
  assume e: "extract_pages_from_bin w filepath = Some (pages, data)"
    and pl: "repair_planner True w flags pages None = Some (Inr (plan, w1))"
    and c: "rp_changes plan = []"
  from repair_planner_no_changes [OF pl c] have "w1 = w" .
  with e pl c repair_planner_pages [OF pl]
  show "fix_bin_file w filepath flags = Some (Inr ((True, No_changes_needed, None), w))"
    by (simp add: fix_bin_file_def bindR_def ret_def Let_def)
qed


lemma planned_changes_Inr:
  "planned_changes r = Some (Inr cs) \<Longrightarrow> \<exists>plan w. r = Some (Inr (plan, w)) \<and> rp_changes plan = cs"
  by (cases r) (auto simp: planned_changes_def map_sum_def split: sum.splits)

theorem no_changes_needed_witness:
  "observe_text ''a.nfc''
     (fix_nfc_file
        (simple_world
           [(''a.nfc'', ''UID: 04 AB 73 B8 B6 0F 80\<newline>Page 0: 04 AB 73 54\<newline>Page 1: B8 B6 0F 80\<newline>Page 2: 81 48 00 00\<newline>Page 130: 01 00 0F BF\<newline>Page 131: 00 00 00 04\<newline>Page 132: 5F 00 00 00\<newline>Page 133: B9 90 1D 63\<newline>Page 134: 80 80 00 00'')]
           [(''b.bin'', [0x04, 0xAB, 0x73, 0x54, 0xB8, 0xB6, 0x0F, 0x80, 0x81, 0x48, 0, 0]
                         @ replicate 508 0
                         @ [0x01, 0x00, 0x0F, 0xBF, 0x00, 0x00, 0x00, 0x04, 0x5F, 0x00, 0x00, 0x00,
                            0xB9, 0x90, 0x1D, 0x63, 0x80, 0x80, 0x00, 0x00])] 0x42)
        ''a.nfc'' all_flags)
   = Some (Inr ((True, No_changes_needed, None),
        Some ''UID: 04 AB 73 B8 B6 0F 80\<newline>Page 0: 04 AB 73 54\<newline>Page 1: B8 B6 0F 80\<newline>Page 2: 81 48 00 00\<newline>Page 130: 01 00 0F BF\<newline>Page 131: 00 00 00 04\<newline>Page 132: 5F 00 00 00\<newline>Page 133: B9 90 1D 63\<newline>Page 134: 80 80 00 00'',
        [], 0))
   \<and> observe_bytes ''b.bin''
     (fix_bin_file
        (simple_world
           [(''a.nfc'', ''UID: 04 AB 73 B8 B6 0F 80\<newline>Page 0: 04 AB 73 54\<newline>Page 1: B8 B6 0F 80\<newline>Page 2: 81 48 00 00\<newline>Page 130: 01 00 0F BF\<newline>Page 131: 00 00 00 04\<newline>Page 132: 5F 00 00 00\<newline>Page 133: B9 90 1D 63\<newline>Page 134: 80 80 00 00'')]
           [(''b.bin'', [0x04, 0xAB, 0x73, 0x54, 0xB8, 0xB6, 0x0F, 0x80, 0x81, 0x48, 0, 0]
                         @ replicate 508 0
                         @ [0x01, 0x00, 0x0F, 0xBF, 0x00, 0x00, 0x00, 0x04, 0x5F, 0x00, 0x00, 0x00,
                            0xB9, 0x90, 0x1D, 0x63, 0x80, 0x80, 0x00, 0x00])] 0x42)
        ''b.bin'' all_flags)
   = Some (Inr ((True, No_changes_needed, None),
        Some ([0x04, 0xAB, 0x73, 0x54, 0xB8, 0xB6, 0x0F, 0x80, 0x81, 0x48, 0, 0]
               @ replicate 508 0
               @ [0x01, 0x00, 0x0F, 0xBF, 0x00, 0x00, 0x00, 0x04, 0x5F, 0x00, 0x00, 0x00,
                  0xB9, 0x90, 0x1D, 0x63, 0x80, 0x80, 0x00, 0x00]),
        [], 0))"
proof -
  let ?c = "''UID: 04 AB 73 B8 B6 0F 80\<newline>Page 0: 04 AB 73 54\<newline>Page 1: B8 B6 0F 80\<newline>Page 2: 81 48 00 00\<newline>Page 130: 01 00 0F BF\<newline>Page 131: 00 00 00 04\<newline>Page 132: 5F 00 00 00\<newline>Page 133: B9 90 1D 63\<newline>Page 134: 80 80 00 00''"
  let ?d = "[0x04, 0xAB, 0x73, 0x54, 0xB8, 0xB6, 0x0F, 0x80, 0x81, 0x48, 0, 0]
              @ replicate 508 0
              @ [0x01, 0x00, 0x0F, 0xBF, 0x00, 0x00, 0x00, 0x04, 0x5F, 0x00, 0x00, 0x00,
                 0xB9, 0x90, 0x1D, 0x63, 0x80, 0x80, 0x00, 0x00 :: u8]"
  let ?w = "simple_world [(''a.nfc'', ?c)] [(''b.bin'', ?d)] 0x42"
  obtain p where e: "extract_pages_from_nfc ?w ''a.nfc'' = Some p"
    and pp: "np_pages p = [(0, ''04AB7354''), (1, ''B8B60F80''), (2, ''81480000''),
        (130, ''01000FBF''), (131, ''00000004''), (132, ''5F000000''),
        (133, ''B9901D63''), (134, ''80800000'')]"
      "np_uid_field p = Some ''04AB73B8B60F80''"
  proof -
    have "map_option (\<lambda>p. (np_pages p, np_uid_field p)) (extract_pages_from_nfc ?w ''a.nfc'')
        = Some ([(0, ''04AB7354''), (1, ''B8B60F80''), (2, ''81480000''),
        (130, ''01000FBF''), (131, ''00000004''), (132, ''5F000000''),
        (133, ''B9901D63''), (134, ''80800000'')], Some ''04AB73B8B60F80'')"
      by code_simp
    with that show ?thesis by auto
  qed
  have "planned_changes (repair_planner False ?w all_flags
      [(0, ''04AB7354''), (1, ''B8B60F80''), (2, ''81480000''),
        (130, ''01000FBF''), (131, ''00000004''), (132, ''5F000000''),
        (133, ''B9901D63''), (134, ''80800000'')] (Some ''04AB73B8B60F80'')) = Some (Inr [])"
    by code_simp
  from planned_changes_Inr [OF this] obtain plan w1 where
    pl: "repair_planner False ?w all_flags (np_pages p) (np_uid_field p) = Some (Inr (plan, w1))"
      "rp_changes plan = []"
    unfolding pp by blast
  from no_changes_needed [THEN conjunct1, rule_format, OF conjI [OF e conjI [OF pl]]]
  have 1: "fix_nfc_file ?w ''a.nfc'' all_flags = Some (Inr ((True, No_changes_needed, None), ?w))" .
  have ld: "length ?d = 540" by simp
  have eb: "extract_pages_from_bin ?w ''b.bin'' = Some (bin_pages ?d, ?d)"
    unfolding extract_pages_from_bin_def simple_world_def using ld by simp
  have "planned_changes (repair_planner True ?w all_flags (bin_pages ?d) None) = Some (Inr [])"
    by code_simp
  from planned_changes_Inr [OF this] obtain plan' w1' where
    pl': "repair_planner True ?w all_flags (bin_pages ?d) None = Some (Inr (plan', w1'))"
      "rp_changes plan' = []"
    by blast
  from no_changes_needed [THEN conjunct2, rule_format, OF conjI [OF eb conjI [OF pl']]]
  have 2: "fix_bin_file ?w ''b.bin'' all_flags = Some (Inr ((True, No_changes_needed, None), ?w))" .
  show ?thesis
    unfolding 1 2 by (simp add: observe_text_def observe_bytes_def simple_world_def)
qed

section \<open>Properties of the binary codec\<close>

lemma hexdigit_table:
  "\<forall>n \<in> set [0..<16]. digit_value (hexdigit n) = Some n \<and> \<not> ascii_space (hexdigit n)"
  by code_simp

lemma digit_value_hexdigit: "n < 16 \<Longrightarrow> digit_value (hexdigit n) = Some n"
  using hexdigit_table by simp

lemma hexdigit_not_space: "n < 16 \<Longrightarrow> \<not> ascii_space (hexdigit n)"
  using hexdigit_table by simp

lemma byte_of_nibbles: "word_of_nat (16 * (unat b div 16) + unat b mod 16) = (b :: u8)"
  by simp

lemma fromhex_hex2:
  "fromhex (hex2 b @ s) = (case fromhex s of Inl e \<Rightarrow> Inl e | Inr bs \<Rightarrow> Inr (b # bs))"
  by (simp add: hex2_def digit_value_hexdigit hexdigit_not_space unat_u8_nibbles
        cong: sum.case_cong)

lemma fromhex_hex_upper: "fromhex (hex_upper bs) = Inr bs"
  by (induction bs) (simp_all add: hex_upper_def fromhex_hex2)

lemma map_of_bin_pages:
  assumes "540 \<le> length data"
  shows "map_of (bin_pages data) n =
    (if n \<in> {0, 1, 2, 130, 131, 132, 133, 134}
     then Some (hex_upper (take 4 (drop (n * 4) data))) else None)"
  using assms by (simp add: bin_pages_def)

lemma page_bytes_bin_pages:
  assumes "540 \<le> length data" and "n \<in> {0, 1, 2, 130, 131, 132, 133, 134}"
  shows "page_bytes (bin_pages data) n = Inr (take 4 (drop (n * 4) data))"
  using assms(2) by (simp add: page_bytes_def map_of_bin_pages [OF assms(1)] fromhex_hex_upper)

lemma has_page_bin_pages:
  assumes "540 \<le> length data"
  shows "has_page (bin_pages data) n \<longleftrightarrow> n \<in> {0, 1, 2, 130, 131, 132, 133, 134}"
  by (simp add: has_page_def map_of_bin_pages [OF assms])

lemma bin_pages_nonempty: "540 \<le> length data \<Longrightarrow> bin_pages data \<noteq> []"
  by (simp add: bin_pages_def)

lemma take4_drop_nth:
  "k + 4 \<le> length d \<Longrightarrow> take 4 (drop k d) = [d ! k, d ! (k + 1), d ! (k + 2), d ! (k + 3)]"
  by (auto simp: list_eq_iff_nth_eq nth_Cons' numeral_eq_Suc less_Suc_eq)

lemma same_untracked_refl: "same_untracked d d"
  by (simp add: same_untracked_def)

lemma same_untracked_trans:
  "same_untracked a b \<Longrightarrow> same_untracked b c \<Longrightarrow> same_untracked a c"
  by (simp add: same_untracked_def)

lemma set_byte_Inr: "set_byte d i b = Inr d' \<Longrightarrow> d' = d[i := b] \<and> i < length d"
  by (simp add: set_byte_def split: if_splits)

lemma set_byte_same_untracked:
  "set_byte d i b = Inr d' \<Longrightarrow> tracked_offset i \<Longrightarrow> same_untracked d d'"
  by (auto simp: same_untracked_def nth_list_update dest!: set_byte_Inr)

lemma set_slice_length:
  "j \<le> length d \<Longrightarrow> i \<le> j \<Longrightarrow> length bs = j - i \<Longrightarrow> length (set_slice d i j bs) = length d"
  by (simp add: set_slice_def)

lemma set_slice_nth:
  assumes "j \<le> length d" "i \<le> j" "length bs = j - i" "k < length d"
  shows "set_slice d i j bs ! k = (if k < i then d ! k else if k < j then bs ! (k - i) else d ! k)"
  using assms by (auto simp: set_slice_def nth_append max_def)

lemma set_slice_same_untracked:
  assumes "j \<le> length d" "i \<le> j" "length bs = j - i" "\<forall>k. i \<le> k \<and> k < j \<longrightarrow> tracked_offset k"
  shows "same_untracked d (set_slice d i j bs)"
  unfolding same_untracked_def
  using assms by (auto simp: set_slice_length set_slice_nth)

lemma if_step_same_untracked:
  "(if c then m else Inr d) = Inr d' \<Longrightarrow> (m = Inr d' \<Longrightarrow> same_untracked d d')
     \<Longrightarrow> same_untracked d d'"
  by (auto simp: same_untracked_refl split: if_splits)

lemma patch_bin_same_untracked:
  assumes "patch_bin flags pages plan d = Inr d'" and "540 \<le> length d"
    and "length (rp_password plan) = 4"
  shows "same_untracked d d'"
proof -
  from assms(1) obtain d1 d2 d3 d4 where
    1: "(if fix_uid flags
         then bindE (set_byte d 0 (rp_uid plan ! 0)) (\<lambda>d.
              bindE (set_byte d 1 (rp_uid plan ! 1)) (\<lambda>d.
              set_byte d 2 (rp_uid plan ! 2)))
         else Inr d) = Inr d1"
    and 2: "(if fix_bcc flags then set_byte d1 3 (rp_bcc0 plan) else Inr d1) = Inr d2"
    and 3: "(if fix_uid flags
             then bindE (set_byte d2 4 (rp_uid plan ! 3)) (\<lambda>d.
                  bindE (set_byte d 5 (rp_uid plan ! 4)) (\<lambda>d.
                  bindE (set_byte d 6 (rp_uid plan ! 5)) (\<lambda>d.
                  set_byte d 7 (rp_uid plan ! 6))))
             else Inr d2) = Inr d3"
    and 4: "(if fix_bcc flags \<and> has_page pages 2 then set_byte d3 8 (rp_bcc1 plan)
             else Inr d3) = Inr d4"
    and 5: "d' =
      (let d5 = (if fix_dlb flags \<and> has_page pages 130
                then set_slice d4 520 524 [0x01, 0x00, 0x0F, 0xBF] else d4);
          d6 = (if fix_cfg flags \<and> has_page pages 131
                then set_slice d5 524 528 [0x00, 0x00, 0x00, 0x04] else d5);
          d7 = (if fix_cfg flags \<and> has_page pages 132
                then set_slice d6 528 532 [0x5F, 0x00, 0x00, 0x00] else d6);
          d8 = (if fix_password flags \<and> has_page pages 133
                then set_slice d7 532 536 (rp_password plan) else d7);
          d9 = (if fix_pack flags \<and> has_page pages 134
                then set_slice d8 536 540 [0x80, 0x80, 0x00, 0x00] else d8)
      in d9)"
    unfolding patch_bin_def Let_def bindE_Inr_iff by auto
  have t: "tracked_offset 0" "tracked_offset 1" "tracked_offset 2" "tracked_offset 3"
    "tracked_offset 4" "tracked_offset 5" "tracked_offset 6" "tracked_offset 7"
    "tracked_offset 8"
    by (simp_all add: tracked_offset_def)
  have s1: "same_untracked d d1"
  proof (cases "fix_uid flags")
    case True
    with 1 obtain x y where "set_byte d 0 (rp_uid plan ! 0) = Inr x"
      "set_byte x 1 (rp_uid plan ! 1) = Inr y" "set_byte y 2 (rp_uid plan ! 2) = Inr d1"
      by (auto simp: bindE_Inr_iff)
    then show ?thesis
      by (blast intro: same_untracked_trans set_byte_same_untracked t)
  next
    case False
    with 1 show ?thesis by (simp add: same_untracked_refl)
  qed
  have s2: "same_untracked d1 d2"
    using 2 by (rule if_step_same_untracked) (auto intro: set_byte_same_untracked t)
  have s3: "same_untracked d2 d3"
  proof (cases "fix_uid flags")
    case True
    with 3 obtain x y z where "set_byte d2 4 (rp_uid plan ! 3) = Inr x"
      "set_byte x 5 (rp_uid plan ! 4) = Inr y" "set_byte y 6 (rp_uid plan ! 5) = Inr z"
      "set_byte z 7 (rp_uid plan ! 6) = Inr d3"
      by (auto simp: bindE_Inr_iff)
    then show ?thesis
      by (blast intro: same_untracked_trans set_byte_same_untracked t)
  next
    case False
    with 3 show ?thesis by (simp add: same_untracked_refl)
  qed
  have s4: "same_untracked d3 d4"
    using 4 by (rule if_step_same_untracked) (auto intro: set_byte_same_untracked t)
  from s1 s2 s3 s4 have s04: "same_untracked d d4"
    by (blast intro: same_untracked_trans)
  then have l4: "length d4 = length d"
    by (simp add: same_untracked_def)
  have step: "same_untracked x (if c then set_slice x i j bs else x)"
    if "length x = length d" "j \<le> 540" "i \<le> j" "length bs = j - i" "520 \<le> i" for x c i j bs
    using that assms(2)
    by (auto simp: same_untracked_refl tracked_offset_def intro!: set_slice_same_untracked)
  have len: "length (if c then set_slice x i j bs else x) = length d"
    if "length x = length d" "j \<le> 540" "i \<le> j" "length bs = j - i" for x c i j bs
    using that assms(2) by (simp add: set_slice_length)
  define d5 where "d5 = (if fix_dlb flags \<and> has_page pages 130
                then set_slice d4 520 524 [0x01, 0x00, 0x0F, 0xBF] else d4)"
  define d6 where "d6 = (if fix_cfg flags \<and> has_page pages 131
                then set_slice d5 524 528 [0x00, 0x00, 0x00, 0x04] else d5)"
  define d7 where "d7 = (if fix_cfg flags \<and> has_page pages 132
                then set_slice d6 528 532 [0x5F, 0x00, 0x00, 0x00] else d6)"
  define d8 where "d8 = (if fix_password flags \<and> has_page pages 133
                then set_slice d7 532 536 (rp_password plan) else d7)"
  have d': "d' = (if fix_pack flags \<and> has_page pages 134
                then set_slice d8 536 540 [0x80, 0x80, 0x00, 0x00] else d8)"
    unfolding 5 Let_def d5_def d6_def d7_def d8_def ..
  have l5: "length d5 = length d" unfolding d5_def using l4 by (intro len) simp_all
  have l6: "length d6 = length d" unfolding d6_def using l5 by (intro len) simp_all
  have l7: "length d7 = length d" unfolding d7_def using l6 by (intro len) simp_all
  have l8: "length d8 = length d" unfolding d8_def using l7 assms(3) by (intro len) simp_all
  have "same_untracked d4 d5" unfolding d5_def using l4 by (intro step) simp_all
  moreover have "same_untracked d5 d6" unfolding d6_def using l5 by (intro step) simp_all
  moreover have "same_untracked d6 d7" unfolding d7_def using l6 by (intro step) simp_all
  moreover have "same_untracked d7 d8" unfolding d8_def using l7 assms(3) by (intro step) simp_all
  moreover have "same_untracked d8 d'" unfolding d' using l8 by (intro step) simp_all
  ultimately show ?thesis
    using s04 by (blast intro: same_untracked_trans)
qed

lemma plan_fields_plan:
  assumes "plan_fields strict flags pages page0 uid changes0 issues0 = Inr plan"
  shows "length uid = 7 \<and> rp_uid plan = uid
       \<and> rp_bcc0 plan = 0x88 XOR uid ! 0 XOR uid ! 1 XOR uid ! 2
       \<and> rp_bcc1 plan = uid ! 3 XOR uid ! 4 XOR uid ! 5 XOR uid ! 6
       \<and> Some (rp_password plan) = calculate_password_from_uid uid"
proof (cases "length uid \<noteq> 7")
  case True
  with assms show ?thesis by (simp add: plan_fields_def)
next
  case False
  with assms show ?thesis
    unfolding plan_fields_def Let_def bindE_Inr_iff if_not_P [OF False]
    by (elim exE conjE) (auto split del: if_split split: option.splits)
qed

lemma repair_planner_plan:
  assumes "repair_planner strict w flags pages uf = Some (Inr (plan, w1))"
  shows "length (rp_uid plan) = 7
       \<and> rp_bcc0 plan = 0x88 XOR rp_uid plan ! 0 XOR rp_uid plan ! 1 XOR rp_uid plan ! 2
       \<and> rp_bcc1 plan = rp_uid plan ! 3 XOR rp_uid plan ! 4 XOR rp_uid plan ! 5 XOR rp_uid plan ! 6
       \<and> Some (rp_password plan) = calculate_password_from_uid (rp_uid plan)
       \<and> length (rp_password plan) = 4"
proof -
  from assms obtain page0 uid cs iss where
    "plan_fields strict flags pages page0 uid cs iss = Inr plan"
    unfolding repair_planner_def
    by (auto simp: bindR_Inr_iff ret_def Let_def split: prod.splits)
  from plan_fields_plan [OF this] show ?thesis
    by (auto simp: calculate_password_from_uid_def Let_def split: if_splits)
qed

lemma fix_bin_file_fixed:
  assumes "fix_bin_file w filepath flags = Some (Inr ((s, Fixed_successfully b cs, iss), w'))"
  obtains data plan w1 w2 new_data where
    "bytes_of w filepath = Some data" "540 \<le> length data"
    "repair_planner True w flags (bin_pages data) None = Some (Inr (plan, w1))"
    "backup_file w1 filepath = (b, w2)"
    "patch_bin flags (bin_pages data) plan data = Inr new_data"
    "w' = w2\<lparr>bytes_of := (bytes_of w2)(filepath \<mapsto> new_data)\<rparr>"
proof -
  from assms obtain e where e: "extract_pages_from_bin w filepath = Some e"
    by (cases "extract_pages_from_bin w filepath") (simp_all add: fix_bin_file_def ret_def)
  then obtain data where c: "bytes_of w filepath = Some data" "540 \<le> length data"
    "e = (bin_pages data, data)"
    by (auto simp: extract_pages_from_bin_def split: option.splits if_splits)
  from assms e c(3) obtain plan w1 where
    pl: "repair_planner True w flags (bin_pages data) None = Some (Inr (plan, w1))"
    and rest: "(if rp_changes plan = [] then ret ((True, No_changes_needed, None), w1)
         else
           let (backup_path, w2) = backup_file w1 filepath in
           bindR (Some (patch_bin flags (bin_pages data) plan data)) (\<lambda>new_data.
             if write_ok w2 filepath
             then ret ((True, Fixed_successfully backup_path (rp_changes plan),
                        Some (rp_issues plan)),
                       w2\<lparr>bytes_of := (bytes_of w2)(filepath \<mapsto> new_data)\<rparr>)
             else ret ((False, Error_writing_file, None), w2)))
        = Some (Inr ((s, Fixed_successfully b cs, iss), w'))"
    by (auto simp: fix_bin_file_def ret_def Let_def bindR_Inr_iff split: if_splits)
  obtain bp w2 where bk: "backup_file w1 filepath = (bp, w2)"
    by (cases "backup_file w1 filepath")
  from rest bk obtain new_data where
    "patch_bin flags (bin_pages data) plan data = Inr new_data"
    "bp = b" "w' = w2\<lparr>bytes_of := (bytes_of w2)(filepath \<mapsto> new_data)\<rparr>"
    by (auto simp: ret_def bindR_Inr_iff split: if_splits)
  with c pl bk that show ?thesis by blast
qed

text \<open>
  Claim C7. When the binary repair rewrites a file, the file had at least 540 bytes, the
  new buffer has the same length, and it agrees with the old one at every offset that
  is not tracked, that is, at every offset other than 0 to 8 and 520 to 539: pages 3 to
  129, the last three bytes of page 2 and all trailing bytes are unchanged, under every
  set of flags. No other file changes.
\<close>

theorem fix_bin_file_frame:
  assumes "fix_bin_file w filepath flags = Some (Inr ((s, Fixed_successfully b cs, iss), w'))"
  shows "\<exists>data new_data.
           bytes_of w filepath = Some data \<and> 540 \<le> length data
           \<and> bytes_of w' filepath = Some new_data
           \<and> length new_data = length data
           \<and> (\<forall>i < length data. \<not> tracked_offset i \<longrightarrow> new_data ! i = data ! i)
           \<and> (\<forall>p. p \<noteq> filepath \<longrightarrow> bytes_of w' p = bytes_of w p)
           \<and> text_of w' = text_of w"
proof -
  from fix_bin_file_fixed [OF assms]
  obtain data plan w1 w2 new_data where
    c: "bytes_of w filepath = Some data" "540 \<le> length data"
    and pl: "repair_planner True w flags (bin_pages data) None = Some (Inr (plan, w1))"
    and bk: "backup_file w1 filepath = (b, w2)"
    and pb: "patch_bin flags (bin_pages data) plan data = Inr new_data"
    and w': "w' = w2\<lparr>bytes_of := (bytes_of w2)(filepath \<mapsto> new_data)\<rparr>"
    by blast
  from repair_planner_plan [OF pl] have "length (rp_password plan) = 4"
    by simp
  from patch_bin_same_untracked [OF pb c(2) this]
  have frame: "length new_data = length data"
    "\<forall>i < length data. \<not> tracked_offset i \<longrightarrow> new_data ! i = data ! i"
    by (simp_all add: same_untracked_def)
  from repair_planner_world [OF pl] backup_file_world [OF bk]
  have files: "text_of w2 = text_of w" "bytes_of w2 = bytes_of w"
    by auto
  have "bytes_of w' filepath = Some new_data"
    "\<forall>p. p \<noteq> filepath \<longrightarrow> bytes_of w' p = bytes_of w p" "text_of w' = text_of w"
    by (simp_all add: w' files)
  with c frame show ?thesis by blast
qed

section \<open>Repair completeness for binary images\<close>

lemma bin_page_length:
  "540 \<le> length d \<Longrightarrow> n \<in> {0, 1, 2, 130, 131, 132, 133, 134}
   \<Longrightarrow> length (take 4 (drop (n * 4) d)) = 4"
  by auto

lemma check_bcc1_bin:
  assumes "540 \<le> length d"
  shows "check_bcc1 (bin_pages d) e = Inr (d ! 8 = e)"
  using assms
  by (simp add: check_bcc1_def has_page_bin_pages page_bytes_bin_pages bindE_def)

lemma check_password_pack_bin:
  assumes "540 \<le> length d"
  shows "check_password_pack (bin_pages d) uid =
    Inr (Some (take 4 (drop 532 d)) = calculate_password_from_uid uid,
         take 4 (drop 536 d) = [0x80, 0x80, 0x00, 0x00])"
  using assms
  by (simp add: check_password_pack_def has_page_bin_pages page_bytes_bin_pages bindE_def Let_def)

lemma validate_dlb_and_cfg_bin:
  assumes "540 \<le> length d"
  shows "validate_dlb_and_cfg (Some (bin_pages d)) =
    Inr (take 4 (drop 520 d) = [0x01, 0x00, 0x0F, 0xBF]
           \<and> take 4 (drop 524 d) = [0x00, 0x00, 0x00, 0x04]
           \<and> take 4 (drop 528 d) = [0x5F, 0x00, 0x00, 0x00],
         take 4 (drop 520 d) = [0x01, 0x00, 0x0F, 0xBF],
         take 4 (drop 524 d) = [0x00, 0x00, 0x00, 0x04],
         take 4 (drop 528 d) = [0x5F, 0x00, 0x00, 0x00])"
  using assms
  by (simp add: validate_dlb_and_cfg_def has_page_bin_pages page_bytes_bin_pages bindE_def Let_def
        bin_pages_nonempty)

lemma bin_uid_length: "540 \<le> length d \<Longrightarrow> length (take 3 (take 4 d) @ take 4 (take 4 (drop 4 d))) = 7"
  by simp

lemma check_uid_comprehensive_bin:
  assumes "540 \<le> length d" and "uid = take 3 d @ take 4 (drop 4 d)"
  shows "check_uid_comprehensive (Some (bin_pages d)) None =
    Inr (uid ! 3 \<noteq> 0x88
           \<and> d ! 3 = 0x88 XOR uid ! 0 XOR uid ! 1 XOR uid ! 2
           \<and> d ! 8 = uid ! 3 XOR uid ! 4 XOR uid ! 5 XOR uid ! 6
           \<and> Some (take 4 (drop 532 d)) = calculate_password_from_uid uid
           \<and> take 4 (drop 536 d) = [0x80, 0x80, 0x00, 0x00]
           \<and> take 4 (drop 520 d) = [0x01, 0x00, 0x0F, 0xBF]
           \<and> take 4 (drop 524 d) = [0x00, 0x00, 0x00, 0x04]
           \<and> take 4 (drop 528 d) = [0x5F, 0x00, 0x00, 0x00],
         Field_report, hex_spaced uid,
         \<lparr>pd_uid_field = True, pd_sn3 = (uid ! 3 \<noteq> 0x88),
          pd_bcc0 = (d ! 3 = 0x88 XOR uid ! 0 XOR uid ! 1 XOR uid ! 2),
          pd_bcc1 = (d ! 8 = uid ! 3 XOR uid ! 4 XOR uid ! 5 XOR uid ! 6),
          pd_password = (Some (take 4 (drop 532 d)) = calculate_password_from_uid uid),
          pd_pack = (take 4 (drop 536 d) = [0x80, 0x80, 0x00, 0x00]),
          pd_dlb = (take 4 (drop 520 d) = [0x01, 0x00, 0x0F, 0xBF]),
          pd_cfg0 = (take 4 (drop 524 d) = [0x00, 0x00, 0x00, 0x04]),
          pd_cfg1 = (take 4 (drop 528 d) = [0x5F, 0x00, 0x00, 0x00])\<rparr>)"
proof -
  from assms(1) have here: "\<not> (bin_pages d = [] \<or> \<not> has_page (bin_pages d) 0 \<or> \<not> has_page (bin_pages d) 1)"
    by (simp add: bin_pages_nonempty has_page_bin_pages)
  from assms(1) have p0: "page_bytes (bin_pages d) 0 = Inr (take 4 d)"
    and p1: "page_bytes (bin_pages d) 1 = Inr (take 4 (drop 4 d))"
    using page_bytes_bin_pages [of d 0] page_bytes_bin_pages [of d 1] by simp_all
  from assms(1) have long: "\<not> length (take 3 (take 4 d) @ take 4 (take 4 (drop 4 d))) < 7"
    by simp
  from assms have u: "uid = take 3 (take 4 d) @ take 4 (take 4 (drop 4 d))"
    by simp
  from assms(1) have l4: "4 \<le> length (take 4 d)" "take 4 d ! 3 = d ! 3"
    by simp_all
  show ?thesis
    unfolding check_uid_comprehensive_main [OF here p0 p1 long u]
      check_bcc1_bin [OF assms(1)] check_password_pack_bin [OF assms(1)]
      validate_dlb_and_cfg_bin [OF assms(1)]
    using l4 by (simp add: bindE_def uid_field_matches_pages_def)
qed


lemma page_needs_fix_bin:
  assumes "540 \<le> length d" and "n \<in> {0, 1, 2, 130, 131, 132, 133, 134}"
  shows "page_needs_fix True (bin_pages d) n c = Inr (take 4 (drop (n * 4) d) \<noteq> c)"
  using assms
  by (auto simp: page_needs_fix_def has_page_bin_pages page_bytes_bin_pages bindE_def)

lemma plan_fields_bin:
  assumes "540 \<le> length d" and "length uid = 7"
    and "calculate_password_from_uid uid = Some pw"
  shows "plan_fields True all_flags (bin_pages d) (take 4 d) uid cs iss =
    Inr \<lparr>rp_uid = uid,
         rp_bcc0 = 0x88 XOR uid ! 0 XOR uid ! 1 XOR uid ! 2,
         rp_bcc1 = uid ! 3 XOR uid ! 4 XOR uid ! 5 XOR uid ! 6,
         rp_password = pw,
         rp_changes = cs
           @ (if d ! 3 \<noteq> 0x88 XOR uid ! 0 XOR uid ! 1 XOR uid ! 2 then [Fixed_BCC0] else [])
           @ (if d ! 8 \<noteq> uid ! 3 XOR uid ! 4 XOR uid ! 5 XOR uid ! 6 then [Fixed_BCC1] else [])
           @ (if take 4 (drop 532 d) \<noteq> pw then [Fixed_Password] else [])
           @ (if take 4 (drop 536 d) \<noteq> [0x80, 0x80, 0x00, 0x00] then [Fixed_PACK] else [])
           @ (if take 4 (drop 520 d) \<noteq> [0x01, 0x00, 0x0F, 0xBF] then [Fixed_DLB] else [])
           @ (if take 4 (drop 524 d) \<noteq> [0x00, 0x00, 0x00, 0x04] then [Fixed_CFG0] else [])
           @ (if take 4 (drop 528 d) \<noteq> [0x5F, 0x00, 0x00, 0x00] then [Fixed_CFG1] else []),
         rp_issues = iss\<lparr>
           pd_bcc0 := d ! 3 \<noteq> 0x88 XOR uid ! 0 XOR uid ! 1 XOR uid ! 2,
           pd_bcc1 := d ! 8 \<noteq> uid ! 3 XOR uid ! 4 XOR uid ! 5 XOR uid ! 6,
           pd_password := take 4 (drop 532 d) \<noteq> pw,
           pd_pack := take 4 (drop 536 d) \<noteq> [0x80, 0x80, 0x00, 0x00],
           pd_dlb := take 4 (drop 520 d) \<noteq> [0x01, 0x00, 0x0F, 0xBF],
           pd_cfg0 := take 4 (drop 524 d) \<noteq> [0x00, 0x00, 0x00, 0x04],
           pd_cfg1 := take 4 (drop 528 d) \<noteq> [0x5F, 0x00, 0x00, 0x00]\<rparr>\<rparr>"
proof -
  have f: "fix_bcc all_flags" "fix_password all_flags" "fix_pack all_flags"
    "fix_dlb all_flags" "fix_cfg all_flags"
    by (simp_all add: all_flags_def)
  from assms(1) have p2: "page_bytes (bin_pages d) 2 = Inr (take 4 (drop 8 d))"
    using page_bytes_bin_pages [of d 2] by simp
  from assms(1) have h2: "has_page (bin_pages d) 2"
    by (simp add: has_page_bin_pages)
  from assms(1) have n: "page_needs_fix True (bin_pages d) 133 c = Inr (take 4 (drop 532 d) \<noteq> c)"
    "page_needs_fix True (bin_pages d) 134 c = Inr (take 4 (drop 536 d) \<noteq> c)"
    "page_needs_fix True (bin_pages d) 130 c = Inr (take 4 (drop 520 d) \<noteq> c)"
    "page_needs_fix True (bin_pages d) 131 c = Inr (take 4 (drop 524 d) \<noteq> c)"
    "page_needs_fix True (bin_pages d) 132 c = Inr (take 4 (drop 528 d) \<noteq> c)" for c
    using page_needs_fix_bin [of d 133 c] page_needs_fix_bin [of d 134 c]
      page_needs_fix_bin [of d 130 c] page_needs_fix_bin [of d 131 c]
      page_needs_fix_bin [of d 132 c]
    by simp_all
  from assms(1) have l: "4 \<le> length (take 4 d)" "take 4 d ! 3 = d ! 3"
    "1 \<le> length (take 4 (drop 8 d))" "take 4 (drop 8 d) ! 0 = d ! 8"
    by simp_all
  show ?thesis
    unfolding plan_fields_def Let_def
    using assms(2,3) h2 l
    by (simp add: bindE_def f n p2 split del: if_split)
qed


lemma fix_uid_if_sn3_is_88_result:
  assumes "fix_uid_if_sn3_is_88 rnd i uid = Some (uid', fixed, j)" and "length uid = 7"
  shows "length uid' = 7 \<and> uid' ! 3 \<noteq> 0x88 \<and> (\<forall>k. k \<noteq> 3 \<longrightarrow> uid' ! k = uid ! k)
       \<and> (\<not> fixed \<longrightarrow> uid' = uid \<and> j = i)"
proof (cases "uid ! 3 = 0x88")
  case True
  with assms obtain b where "draw_not_88 rnd i = Some (b, j)" "uid' = uid[3 := b]" "fixed"
    by (auto simp: fix_uid_if_sn3_is_88_def split: option.splits)
  with draw_not_88_result [of rnd i "(b, j)"] assms(2) show ?thesis
    by auto
next
  case False
  with assms show ?thesis
    by (auto simp: fix_uid_if_sn3_is_88_def)
qed

lemma repair_planner_bin:
  assumes "540 \<le> length d"
  shows "repair_planner True w all_flags (bin_pages d) None =
    bindR (map_option Inr
             (fix_uid_if_sn3_is_88 (rand w) (rand_pos w) (take 3 d @ take 4 (drop 4 d))))
      (\<lambda>(uid, fixed, pos).
         bindR (Some (plan_fields True all_flags (bin_pages d) (take 4 d) uid
                  (if fixed then [Fixed_SN3] else [])
                  (all_false\<lparr>pd_uid_field := False, pd_sn3 := fixed\<rparr>)))
           (\<lambda>plan. ret (plan, w\<lparr>rand_pos := pos\<rparr>)))"
proof -
  from assms have p: "page_bytes (bin_pages d) 0 = Inr (take 4 d)"
    "page_bytes (bin_pages d) 1 = Inr (take 4 (drop 4 d))"
    using page_bytes_bin_pages [of d 0] page_bytes_bin_pages [of d 1] by simp_all
  have f: "fix_uid all_flags" by (simp add: all_flags_def)
  show ?thesis
    unfolding repair_planner_def p
    by (simp add: bindR_def f Let_def cong: option.case_cong sum.case_cong)
qed

lemma repair_planner_bin_Inr:
  assumes "540 \<le> length d"
    and "repair_planner True w all_flags (bin_pages d) None = Some (Inr (plan, w1))"
  obtains uid fixed pos pw where
    "fix_uid_if_sn3_is_88 (rand w) (rand_pos w) (take 3 d @ take 4 (drop 4 d))
       = Some (uid, fixed, pos)"
    "length uid = 7" "uid ! 3 \<noteq> 0x88" "\<not> fixed \<longrightarrow> uid = take 3 d @ take 4 (drop 4 d)"
    "calculate_password_from_uid uid = Some pw" "length pw = 4"
    "plan_fields True all_flags (bin_pages d) (take 4 d) uid
       (if fixed then [Fixed_SN3] else [])
       (all_false\<lparr>pd_uid_field := False, pd_sn3 := fixed\<rparr>) = Inr plan"
    "w1 = w\<lparr>rand_pos := pos\<rparr>"
proof -
  from assms(2) [unfolded repair_planner_bin [OF assms(1)] bindR_Inr_iff]
  obtain uid fixed pos where
    f: "fix_uid_if_sn3_is_88 (rand w) (rand_pos w) (take 3 d @ take 4 (drop 4 d))
       = Some (uid, fixed, pos)"
    and pf: "plan_fields True all_flags (bin_pages d) (take 4 d) uid
       (if fixed then [Fixed_SN3] else [])
       (all_false\<lparr>pd_uid_field := False, pd_sn3 := fixed\<rparr>) = Inr plan"
    and w1: "w1 = w\<lparr>rand_pos := pos\<rparr>"
    by (auto simp: ret_def bindR_Inr_iff split: prod.splits)
  from assms(1) have "length (take 3 d @ take 4 (drop 4 d)) = 7"
    by simp
  from fix_uid_if_sn3_is_88_result [OF f this]
  have u: "length uid = 7" "uid ! 3 \<noteq> 0x88" "\<not> fixed \<longrightarrow> uid = take 3 d @ take 4 (drop 4 d)"
    by simp_all
  from u(1) obtain pw where pw: "calculate_password_from_uid uid = Some pw" "length pw = 4"
    by (simp add: calculate_password_from_uid_def Let_def)
  from f u pw pf w1 that show ?thesis by blast
qed


lemma set_slices_all:
  assumes "540 \<le> length x" and "length pw = 4"
  shows "set_slice (set_slice (set_slice (set_slice (set_slice x
           520 524 [0x01, 0x00, 0x0F, 0xBF]) 524 528 [0x00, 0x00, 0x00, 0x04])
           528 532 [0x5F, 0x00, 0x00, 0x00]) 532 536 pw) 536 540 [0x80, 0x80, 0x00, 0x00]
       = take 520 x @ [0x01, 0x00, 0x0F, 0xBF] @ [0x00, 0x00, 0x00, 0x04]
           @ [0x5F, 0x00, 0x00, 0x00] @ pw @ [0x80, 0x80, 0x00, 0x00] @ drop 540 x"
  using assms by (simp add: set_slice_def)

lemma patch_bin_all:
  assumes "540 \<le> length d" and "length (rp_uid plan) = 7" and "length (rp_password plan) = 4"
  shows "\<exists>d'. patch_bin all_flags (bin_pages d) plan d = Inr d' \<and> length d' = length d
       \<and> take 3 d' @ take 4 (drop 4 d') = rp_uid plan
       \<and> d' ! 3 = rp_bcc0 plan \<and> d' ! 8 = rp_bcc1 plan
       \<and> take 4 (drop 532 d') = rp_password plan
       \<and> take 4 (drop 536 d') = [0x80, 0x80, 0x00, 0x00]
       \<and> take 4 (drop 520 d') = [0x01, 0x00, 0x0F, 0xBF]
       \<and> take 4 (drop 524 d') = [0x00, 0x00, 0x00, 0x04]
       \<and> take 4 (drop 528 d') = [0x5F, 0x00, 0x00, 0x00]"
proof -
  define u where "u = rp_uid plan"
  define x where "x = d[0 := u ! 0, 1 := u ! 1, 2 := u ! 2, 3 := rp_bcc0 plan,
      4 := u ! 3, 5 := u ! 4, 6 := u ! 5, 7 := u ! 6, 8 := rp_bcc1 plan]"
  define d' where "d' = take 520 x @ [0x01, 0x00, 0x0F, 0xBF] @ [0x00, 0x00, 0x00, 0x04]
           @ [0x5F, 0x00, 0x00, 0x00] @ rp_password plan @ [0x80, 0x80, 0x00, 0x00] @ drop 540 x"
  have lx: "length x = length d"
    by (simp add: x_def)
  with assms(1) have lx': "540 \<le> length x"
    by simp
  have f: "fix_uid all_flags" "fix_bcc all_flags" "fix_password all_flags" "fix_pack all_flags"
    "fix_dlb all_flags" "fix_cfg all_flags"
    by (simp_all add: all_flags_def)
  from assms(1) have h: "has_page (bin_pages d) 2" "has_page (bin_pages d) 130"
    "has_page (bin_pages d) 131" "has_page (bin_pages d) 132" "has_page (bin_pages d) 133"
    "has_page (bin_pages d) 134"
    by (simp_all add: has_page_bin_pages)
  have "patch_bin all_flags (bin_pages d) plan d = Inr
      (set_slice (set_slice (set_slice (set_slice (set_slice x
           520 524 [0x01, 0x00, 0x0F, 0xBF]) 524 528 [0x00, 0x00, 0x00, 0x04])
           528 532 [0x5F, 0x00, 0x00, 0x00]) 532 536 (rp_password plan))
           536 540 [0x80, 0x80, 0x00, 0x00])"
    unfolding patch_bin_def Let_def
    using assms(1) by (auto simp: f h set_byte_def bindE_def x_def u_def)
  then have 1: "patch_bin all_flags (bin_pages d) plan d = Inr d'"
    unfolding set_slices_all [OF lx' assms(3)] d'_def .
  from lx' assms(3) have 2: "length d' = length d"
    by (simp add: d'_def lx [symmetric])
  have low: "d' ! i = x ! i" if "i < 520" for i
    using that lx' by (simp add: d'_def nth_append)
  have xs: "x ! 0 = u ! 0" "x ! 1 = u ! 1" "x ! 2 = u ! 2" "x ! 3 = rp_bcc0 plan"
    "x ! 4 = u ! 3" "x ! 5 = u ! 4" "x ! 6 = u ! 5" "x ! 7 = u ! 6" "x ! 8 = rp_bcc1 plan"
  proof -
    from assms(1) have "d \<noteq> []" by auto
    with assms(1) show "x ! 0 = u ! 0" "x ! 1 = u ! 1" "x ! 2 = u ! 2" "x ! 3 = rp_bcc0 plan"
      "x ! 4 = u ! 3" "x ! 5 = u ! 4" "x ! 6 = u ! 5" "x ! 7 = u ! 6" "x ! 8 = rp_bcc1 plan"
      by (simp_all add: x_def)
  qed
  from 2 assms(1) have "take 3 d' = [d' ! 0, d' ! 1, d' ! 2]"
    by (auto simp: list_eq_iff_nth_eq nth_Cons' numeral_eq_Suc less_Suc_eq)
  moreover from 2 assms(1) have "take 4 (drop 4 d') = [d' ! 4, d' ! 5, d' ! 6, d' ! 7]"
    using take4_drop_nth [of 4 d'] by simp
  moreover from assms(2) have "u = [u ! 0, u ! 1, u ! 2, u ! 3, u ! 4, u ! 5, u ! 6]"
    unfolding u_def
    by (auto simp: list_eq_iff_nth_eq nth_Cons' numeral_eq_Suc less_Suc_eq)
  ultimately have 3: "take 3 d' @ take 4 (drop 4 d') = rp_uid plan"
    using low xs unfolding u_def by simp
  have 4: "d' ! 3 = rp_bcc0 plan" "d' ! 8 = rp_bcc1 plan"
    using low xs by simp_all
  from lx' assms(3) have 5: "take 4 (drop 532 d') = rp_password plan"
    "take 4 (drop 536 d') = [0x80, 0x80, 0x00, 0x00]"
    "take 4 (drop 520 d') = [0x01, 0x00, 0x0F, 0xBF]"
    "take 4 (drop 524 d') = [0x00, 0x00, 0x00, 0x04]"
    "take 4 (drop 528 d') = [0x5F, 0x00, 0x00, 0x00]"
    by (simp_all add: d'_def)
  from 1 2 3 4 5 show ?thesis by blast
qed


lemma check_uid_comprehensive_valid_bin:
  assumes "540 \<le> length d" and "valid_bin_image d"
  shows "check_uid_comprehensive (Some (bin_pages d)) None
    = Inr (True, Field_report, hex_spaced (take 3 d @ take 4 (drop 4 d)), all_true)"
  using assms(2)
  unfolding check_uid_comprehensive_bin [OF assms(1) refl] valid_bin_image_def Let_def all_true_def
  by simp

lemma world_rand_pos_fields:
  "bytes_of (w\<lparr>rand_pos := p\<rparr>) = bytes_of w" "write_ok (w\<lparr>rand_pos := p\<rparr>) = write_ok w"
  by simp_all

lemma fix_bin_file_all_flags_Inr:
  assumes "bytes_of w filepath = Some d" and "540 \<le> length d" and "write_ok w filepath"
    and "fix_uid_if_sn3_is_88 (rand w) (rand_pos w) (take 3 d @ take 4 (drop 4 d))
           = Some (uid, fixed, pos)"
  shows "\<exists>r w' d'. fix_bin_file w filepath all_flags = Some (Inr (r, w')) \<and> fst r
           \<and> bytes_of w' filepath = Some d' \<and> length d' = length d \<and> valid_bin_image d'
           \<and> (\<not> valid_bin_image d \<longrightarrow> (\<exists>b cs iss. r = (True, Fixed_successfully b cs, iss)))"
proof -
  from assms(2) have lu: "length (take 3 d @ take 4 (drop 4 d)) = 7"
    by simp
  from fix_uid_if_sn3_is_88_result [OF assms(4) lu]
  have u: "length uid = 7" "uid ! 3 \<noteq> 0x88" "\<not> fixed \<longrightarrow> uid = take 3 d @ take 4 (drop 4 d)"
    by simp_all
  from u(1) obtain pw where pw: "calculate_password_from_uid uid = Some pw" "length pw = 4"
    by (simp add: calculate_password_from_uid_def Let_def)
  let ?cs = "if fixed then [Fixed_SN3] else []"
  let ?iss = "all_false\<lparr>pd_uid_field := False, pd_sn3 := fixed\<rparr>"
  note pf = plan_fields_bin [OF assms(2) u(1) pw(1), of ?cs ?iss]
  then obtain plan where plan: "plan_fields True all_flags (bin_pages d) (take 4 d) uid ?cs ?iss = Inr plan"
    and fields: "rp_uid plan = uid" "rp_password plan = pw"
      "rp_bcc0 plan = 0x88 XOR uid ! 0 XOR uid ! 1 XOR uid ! 2"
      "rp_bcc1 plan = uid ! 3 XOR uid ! 4 XOR uid ! 5 XOR uid ! 6"
    and changes: "rp_changes plan = ?cs
           @ (if d ! 3 \<noteq> 0x88 XOR uid ! 0 XOR uid ! 1 XOR uid ! 2 then [Fixed_BCC0] else [])
           @ (if d ! 8 \<noteq> uid ! 3 XOR uid ! 4 XOR uid ! 5 XOR uid ! 6 then [Fixed_BCC1] else [])
           @ (if take 4 (drop 532 d) \<noteq> pw then [Fixed_Password] else [])
           @ (if take 4 (drop 536 d) \<noteq> [0x80, 0x80, 0x00, 0x00] then [Fixed_PACK] else [])
           @ (if take 4 (drop 520 d) \<noteq> [0x01, 0x00, 0x0F, 0xBF] then [Fixed_DLB] else [])
           @ (if take 4 (drop 524 d) \<noteq> [0x00, 0x00, 0x00, 0x04] then [Fixed_CFG0] else [])
           @ (if take 4 (drop 528 d) \<noteq> [0x5F, 0x00, 0x00, 0x00] then [Fixed_CFG1] else [])"
    by simp
  define w1 where "w1 = w\<lparr>rand_pos := pos\<rparr>"
  have planner: "repair_planner True w all_flags (bin_pages d) None = Some (Inr (plan, w1))"
    unfolding repair_planner_bin [OF assms(2)] assms(4) w1_def
    by (simp add: bindR_def ret_def plan)
  from assms(1,2) have ex: "extract_pages_from_bin w filepath = Some (bin_pages d, d)"
    by (simp add: extract_pages_from_bin_def)
  from assms(2) have hp: "bin_pages d \<noteq> []" "has_page (bin_pages d) 0" "has_page (bin_pages d) 1"
    by (simp_all add: bin_pages_nonempty has_page_bin_pages)
  have run: "fix_bin_file w filepath all_flags =
      (if rp_changes plan = [] then ret ((True, No_changes_needed, None), w1)
       else
         let (backup_path, w2) = backup_file w1 filepath in
         bindR (Some (patch_bin all_flags (bin_pages d) plan d)) (\<lambda>new_data.
           if write_ok w2 filepath
           then ret ((True, Fixed_successfully backup_path (rp_changes plan),
                      Some (rp_issues plan)),
                     w2\<lparr>bytes_of := (bytes_of w2)(filepath \<mapsto> new_data)\<rparr>)
           else ret ((False, Error_writing_file, None), w2)))"
    unfolding fix_bin_file_def ex using hp
    by (simp add: planner bindR_def)
  show ?thesis
  proof (cases "rp_changes plan = []")
    case True
    with changes have nf: "\<not> fixed"
      and v: "d ! 3 = 0x88 XOR uid ! 0 XOR uid ! 1 XOR uid ! 2"
        "d ! 8 = uid ! 3 XOR uid ! 4 XOR uid ! 5 XOR uid ! 6"
        "take 4 (drop 532 d) = pw"
        "take 4 (drop 536 d) = [0x80, 0x80, 0x00, 0x00]"
        "take 4 (drop 520 d) = [0x01, 0x00, 0x0F, 0xBF]"
        "take 4 (drop 524 d) = [0x00, 0x00, 0x00, 0x04]"
        "take 4 (drop 528 d) = [0x5F, 0x00, 0x00, 0x00]"
      by (simp_all split: if_splits)
    from nf u(3) have ud: "take 3 d @ take 4 (drop 4 d) = uid"
      by simp
    have "valid_bin_image d"
      unfolding valid_bin_image_def Let_def ud using u(2) v pw(1) by simp
    moreover from True have "fix_bin_file w filepath all_flags
        = Some (Inr ((True, No_changes_needed, None), w1))"
      unfolding run by (simp add: ret_def)
    moreover have "bytes_of w1 filepath = Some d"
      by (simp add: w1_def assms(1))
    ultimately show ?thesis by force
  next
    case False
    from u(1) pw(2) fields have "length (rp_uid plan) = 7" "length (rp_password plan) = 4"
      by simp_all
    from patch_bin_all [OF assms(2) this] obtain d' where
      p: "patch_bin all_flags (bin_pages d) plan d = Inr d'" and l: "length d' = length d"
      and pv: "take 3 d' @ take 4 (drop 4 d') = rp_uid plan"
        "d' ! 3 = rp_bcc0 plan" "d' ! 8 = rp_bcc1 plan"
        "take 4 (drop 532 d') = rp_password plan"
        "take 4 (drop 536 d') = [0x80, 0x80, 0x00, 0x00]"
        "take 4 (drop 520 d') = [0x01, 0x00, 0x0F, 0xBF]"
        "take 4 (drop 524 d') = [0x00, 0x00, 0x00, 0x04]"
        "take 4 (drop 528 d') = [0x5F, 0x00, 0x00, 0x00]"
      by blast
    obtain bp w2 where bk: "backup_file w1 filepath = (bp, w2)"
      by (cases "backup_file w1 filepath")
    from backup_file_world [OF bk] assms(3) have wo: "write_ok w2 filepath"
      by (simp add: w1_def)
    from False bk wo p have "fix_bin_file w filepath all_flags
        = Some (Inr ((True, Fixed_successfully bp (rp_changes plan), Some (rp_issues plan)),
            w2\<lparr>bytes_of := (bytes_of w2)(filepath \<mapsto> d')\<rparr>))"
      unfolding run by (simp add: bindR_def ret_def)
    moreover have "bytes_of (w2\<lparr>bytes_of := (bytes_of w2)(filepath \<mapsto> d')\<rparr>) filepath = Some d'"
      by simp
    moreover have "valid_bin_image d'"
      unfolding valid_bin_image_def Let_def pv fields using u(2) pw(1) by simp
    ultimately show ?thesis using l by force
  qed
qed


lemma fix_uid_if_sn3_is_88_returns:
  "fix_uid_if_sn3_is_88 rnd i uid \<noteq> None
     \<longleftrightarrow> \<not> (length uid \<ge> 4 \<and> uid ! 3 = 0x88) \<or> (\<exists>k. rnd (i + k) \<noteq> 0x88)"
proof (cases "length uid \<ge> 4 \<and> uid ! 3 = 0x88")
  case False
  then show ?thesis by (auto simp: fix_uid_if_sn3_is_88_def)
next
  case True
  have "draw_not_88 rnd i \<noteq> None \<longleftrightarrow> (\<exists>k. rnd (i + k) \<noteq> 0x88)"
  proof
    assume "draw_not_88 rnd i \<noteq> None"
    then obtain y where y: "draw_not_88 rnd i = Some y" by auto
    from draw_not_88_result [OF y] have "rnd (i + (snd y - 1 - i)) \<noteq> 0x88"
      by auto
    then show "\<exists>k. rnd (i + k) \<noteq> 0x88" ..
  next
    assume "\<exists>k. rnd (i + k) \<noteq> 0x88"
    then obtain k where "rnd (i + k) \<noteq> 0x88" ..
    from draw_not_88_found [of rnd i k] this show "draw_not_88 rnd i \<noteq> None"
      by auto
  qed
  with True show ?thesis
    by (auto simp: fix_uid_if_sn3_is_88_def split: option.splits)
qed

lemma fix_bin_file_all_flags_None:
  assumes "bytes_of w filepath = Some d" and "540 \<le> length d"
    and "fix_uid_if_sn3_is_88 (rand w) (rand_pos w) (take 3 d @ take 4 (drop 4 d)) = None"
  shows "fix_bin_file w filepath all_flags = None"
proof -
  from assms(1,2) have ex: "extract_pages_from_bin w filepath = Some (bin_pages d, d)"
    by (simp add: extract_pages_from_bin_def)
  from assms(2) have hp: "bin_pages d \<noteq> []" "has_page (bin_pages d) 0" "has_page (bin_pages d) 1"
    by (simp_all add: bin_pages_nonempty has_page_bin_pages)
  have "repair_planner True w all_flags (bin_pages d) None = None"
    unfolding repair_planner_bin [OF assms(2)] assms(3) by (simp add: bindR_def)
  then show ?thesis
    unfolding fix_bin_file_def ex using hp by (simp add: bindR_def)
qed

text \<open>
  Claim C10. For a binary image of at least 540 bytes whose file can be written, the
  binary repair with every fix flag set never raises, and it returns unless SN3 is 0x88
  and the random source yields 0x88 for ever. When it returns it reports success, and
  the file then holds an image of the same length in which every tracked field has its
  derived value: SN3 is not 0x88, BCC0 and BCC1 match the final UID, page 133 holds the
  derived password, page 134 holds 80 80 00 00 and pages 130 to 132 hold the DLB, CFG0
  and CFG1 constants. The validator, run on the pages read back from the file, returns
  an overall result of true with every entry of the diagnosis true.
\<close>

theorem fix_bin_file_repairs:
  assumes "bytes_of w filepath = Some data" and "540 \<le> length data"
    and "write_ok w filepath"
  shows "(fix_bin_file w filepath all_flags \<noteq> None
            \<longleftrightarrow> data ! 4 \<noteq> 0x88 \<or> (\<exists>k. rand w (rand_pos w + k) \<noteq> 0x88))
       \<and> (\<forall>e. fix_bin_file w filepath all_flags \<noteq> Some (Inl e))
       \<and> (\<forall>r w'. fix_bin_file w filepath all_flags = Some (Inr (r, w')) \<longrightarrow>
             fst r
             \<and> (\<exists>new_data. bytes_of w' filepath = Some new_data
                   \<and> length new_data = length data \<and> valid_bin_image new_data
                   \<and> check_uid_comprehensive
                        (map_option fst (extract_pages_from_bin w' filepath)) None
                       = Inr (True, Field_report,
                              hex_spaced (take 3 new_data @ take 4 (drop 4 new_data)),
                              all_true)))"
proof -
  let ?u = "take 3 data @ take 4 (drop 4 data)"
  let ?f = "fix_uid_if_sn3_is_88 (rand w) (rand_pos w) ?u"
  from assms(2) have u3: "4 \<le> length ?u" "?u ! 3 = data ! 4"
    by (simp_all add: nth_append)
  have ret: "?f \<noteq> None \<longleftrightarrow> data ! 4 \<noteq> 0x88 \<or> (\<exists>k. rand w (rand_pos w + k) \<noteq> 0x88)"
    unfolding fix_uid_if_sn3_is_88_returns using u3 assms(2) by auto
  show ?thesis
  proof (cases ?f)
    case None
    from fix_bin_file_all_flags_None [OF assms(1,2) None] ret None show ?thesis
      by simp
  next
    case (Some y)
    obtain uid fixed pos where y: "y = (uid, fixed, pos)"
      by (cases y)
    from fix_bin_file_all_flags_Inr [OF assms Some [unfolded y]]
    obtain r w' d' where run: "fix_bin_file w filepath all_flags = Some (Inr (r, w'))"
      and r: "fst r" and b: "bytes_of w' filepath = Some d'" and l: "length d' = length data"
      and v: "valid_bin_image d'"
      by blast
    from l assms(2) have l': "540 \<le> length d'"
      by simp
    with b have e: "map_option fst (extract_pages_from_bin w' filepath) = Some (bin_pages d')"
      by (simp add: extract_pages_from_bin_def)
    have "check_uid_comprehensive (map_option fst (extract_pages_from_bin w' filepath)) None
        = Inr (True, Field_report, hex_spaced (take 3 d' @ take 4 (drop 4 d')), all_true)"
      unfolding e by (rule check_uid_comprehensive_valid_bin [OF l' v])
    with run r b l v ret Some show ?thesis
      by auto
  qed
qed


theorem fix_bin_file_repairs_witness:
  "\<exists>r w' new_data.
     fix_bin_file
       (simple_world []
          [(''b.bin'', [0x04, 0xAB, 0x73, 0x00, 0x88, 0xB6, 0x0F, 0x80, 0x00, 0x48, 0x00, 0x00]
                        @ replicate 528 0x00)] 0x42)
       ''b.bin'' all_flags = Some (Inr (r, w'))
     \<and> fst r \<and> bytes_of w' ''b.bin'' = Some new_data \<and> length new_data = 540
     \<and> check_uid_comprehensive (map_option fst (extract_pages_from_bin w' ''b.bin'')) None
         = Inr (True, Field_report, hex_spaced (take 3 new_data @ take 4 (drop 4 new_data)),
                all_true)"
proof -
  define d :: "u8 list" where
    "d = [0x04, 0xAB, 0x73, 0x00, 0x88, 0xB6, 0x0F, 0x80, 0x00, 0x48, 0x00, 0x00]
           @ replicate 528 0x00"
  define w where "w = simple_world [] [(''b.bin'', d)] 0x42"
  have b: "bytes_of w ''b.bin'' = Some d"
    by (simp add: w_def simple_world_def)
  have l: "length d = 540"
    by (simp add: d_def)
  then have l': "540 \<le> length d"
    by simp
  have wo: "write_ok w ''b.bin''"
    by (simp add: w_def simple_world_def)
  note t = fix_bin_file_repairs [OF b l' wo]
  have "rand w (rand_pos w + 0) \<noteq> 0x88"
    by (simp add: w_def simple_world_def)
  then have "\<exists>k. rand w (rand_pos w + k) \<noteq> 0x88" ..
  with t [THEN conjunct1] have "fix_bin_file w ''b.bin'' all_flags \<noteq> None"
    by simp
  then obtain x where x: "fix_bin_file w ''b.bin'' all_flags = Some x"
    by blast
  with t [THEN conjunct2, THEN conjunct1] obtain r w' where
    run: "fix_bin_file w ''b.bin'' all_flags = Some (Inr (r, w'))"
    by (cases x) auto
  from t [THEN conjunct2, THEN conjunct2, rule_format, OF run] l
  obtain new_data where "fst r" "bytes_of w' ''b.bin'' = Some new_data"
    "length new_data = 540"
    "check_uid_comprehensive (map_option fst (extract_pages_from_bin w' ''b.bin'')) None
       = Inr (True, Field_report, hex_spaced (take 3 new_data @ take 4 (drop 4 new_data)),
              all_true)"
    by auto
  with run have "\<exists>r w' new_data.
     fix_bin_file w ''b.bin'' all_flags = Some (Inr (r, w'))
     \<and> fst r \<and> bytes_of w' ''b.bin'' = Some new_data \<and> length new_data = 540
     \<and> check_uid_comprehensive (map_option fst (extract_pages_from_bin w' ''b.bin'')) None
         = Inr (True, Field_report, hex_spaced (take 3 new_data @ take 4 (drop 4 new_data)),
                all_true)"
    by blast
  then show ?thesis
    unfolding w_def d_def .
qed

theorem fix_bin_file_frame_witness:
  "\<exists>b cs iss w'.
     fix_bin_file
       (simple_world []
          [(''b.bin'', [0x04, 0xAB, 0x73, 0x54, 0xB8, 0xB6, 0x0F, 0x80, 0x81, 0x48, 0x00, 0x00]
                        @ replicate 508 0x11
                        @ [0x01, 0x00, 0x0F, 0xBF, 0x00, 0x00, 0x00, 0x04, 0x5F, 0x00, 0x00, 0x00,
                           0xB9, 0x90, 0x1D, 0x63, 0x00, 0x00, 0x00, 0x00]
                        @ [0xEE, 0xEE, 0xEE, 0xEE])] 0x42)
       ''b.bin'' all_flags
      = Some (Inr ((True, Fixed_successfully b cs, iss), w'))
     \<and> (\<exists>new_data. bytes_of w' ''b.bin'' = Some new_data
           \<and> length new_data = 544 \<and> new_data ! 9 = 0x48 \<and> new_data ! 100 = 0x11
           \<and> new_data ! 543 = 0xEE)"
proof -
  let ?d = "[0x04, 0xAB, 0x73, 0x54, 0xB8, 0xB6, 0x0F, 0x80, 0x81, 0x48, 0x00, 0x00]
              @ replicate 508 0x11
              @ [0x01, 0x00, 0x0F, 0xBF, 0x00, 0x00, 0x00, 0x04, 0x5F, 0x00, 0x00, 0x00,
                 0xB9, 0x90, 0x1D, 0x63, 0x00, 0x00, 0x00, 0x00]
              @ [0xEE, 0xEE, 0xEE, 0xEE :: u8]"
  let ?w = "simple_world [] [(''b.bin'', ?d)] 0x42"
  have bs: "bytes_of ?w ''b.bin'' = Some ?d"
    by (simp add: simple_world_def)
  have l: "length ?d = 544"
    by simp
  then have l': "540 \<le> length ?d"
    by simp
  have wo: "write_ok ?w ''b.bin''"
    by (simp add: simple_world_def)
  have f: "fix_uid_if_sn3_is_88 (rand ?w) (rand_pos ?w) (take 3 ?d @ take 4 (drop 4 ?d))
      = Some (take 3 ?d @ take 4 (drop 4 ?d), False, rand_pos ?w)"
    by (simp add: fix_uid_if_sn3_is_88_def)
  have "take 4 (drop 536 ?d) \<noteq> [0x80, 0x80, 0x00, 0x00]"
    by simp
  then have nv: "\<not> valid_bin_image ?d"
    unfolding valid_bin_image_def Let_def by blast
  from fix_bin_file_all_flags_Inr [OF bs l' wo f] nv
  obtain b cs iss w' where
    h: "fix_bin_file ?w ''b.bin'' all_flags = Some (Inr ((True, Fixed_successfully b cs, iss), w'))"
    by blast
  have n: "\<not> tracked_offset 9" "\<not> tracked_offset 100" "\<not> tracked_offset 543"
    by (simp_all add: tracked_offset_def)
  have v: "?d ! 9 = 0x48" "?d ! 100 = 0x11" "?d ! 543 = 0xEE"
    by (simp_all add: nth_append)
  from fix_bin_file_frame [OF h] bs obtain new_data where
    nd: "bytes_of w' ''b.bin'' = Some new_data" "length new_data = length ?d"
      "\<forall>i < length ?d. \<not> tracked_offset i \<longrightarrow> new_data ! i = ?d ! i"
    by auto
  from nd(3) l n v have "new_data ! 9 = 0x48" "new_data ! 100 = 0x11" "new_data ! 543 = 0xEE"
    by simp_all
  with h nd(1,2) l show ?thesis
    by (intro exI [of _ b] exI [of _ cs] exI [of _ iss] exI [of _ w']) simp
qed

end
